theory Spec2Isabelle
  imports Complex_Main "HOL-Library.Word" "HOL-Library.Signed_Division"
begin

section \<open>Go values\<close>

text \<open>
  Go's \<open>int64\<close> and \<open>uint64\<close> are 64-bit words: \<open>+\<close> wraps, \<open>sint\<close> reads the
  signed value, \<open>\<le>\<close> on words is the unsigned comparison. Go's \<open>/\<close> on signed
  integers truncates towards zero, which is \<open>sdiv\<close> on \<open>int\<close>. An \<open>error\<close> value is
  represented by its message.
\<close>

type_synonym int64 = "64 word"
type_synonym uint64 = "64 word"
type_synonym go_error = string

definition int64_div :: "int64 \<Rightarrow> int64 \<Rightarrow> int64" where
  "int64_div a b = word_of_int (sint a sdiv sint b)"

text \<open>
  \<open>strconv.Itoa\<close>: the decimal digits, with a leading minus sign for a negative
  number. The program converts an \<open>int64\<close> to \<open>int\<close> first, which is 64 bits wide on
  the platforms of the Dockerfile's image and keeps the value.
\<close>

function digits :: "nat \<Rightarrow> string" where
  "digits n = (if n < 10 then [''0123456789'' ! n]
               else digits (n div 10) @ [''0123456789'' ! (n mod 10)])"
  by pat_completeness auto
termination
  by (relation "measure (\<lambda>n. n)") auto

declare digits.simps [simp del]

definition Itoa :: "int \<Rightarrow> string" where
  "Itoa i = (if i < 0 then CHR ''-'' # digits (nat (- i)) else digits (nat i))"

text \<open>
  \<open>fmt.Sprintf("%03s", s)\<close>: the string padded on the left to width 3 (the width
  counts characters; a longer string is left as it is), with zeros, as the Go releases
  of the module's \<open>go 1.14\<close> pad a string under the \<open>0\<close> flag.
\<close>

definition Sprintf_03s :: "string \<Rightarrow> string" where
  "Sprintf_03s s = replicate (3 - length s) CHR ''0'' @ s"

section \<open>config.go\<close>

record jenkins =
  URL :: string
  User :: string
  Password :: string
  Jobs :: "string list"
  UpdateInterval :: uint64

record Config =
  Jenkins :: jenkins

text \<open>The zero value of \<open>Config\<close>, which \<open>var config Config\<close> declares.\<close>

definition zero_Config :: Config where
  "zero_Config = \<lparr>Jenkins = \<lparr>URL = [], User = [], Password = [], Jobs = [], UpdateInterval = 0\<rparr>\<rparr>"

text \<open>
  The file system and the TOML decoder are the program's environment: \<open>Stat\<close> is the
  error of \<open>os.Stat\<close> on a path (\<open>None\<close> for \<open>nil\<close>), and \<open>DecodeFile\<close> is
  \<open>toml.DecodeFile\<close>, which receives the path and the structure to fill and gives back
  its error and the structure as it left it.
\<close>

record os_env =
  Stat :: "string \<Rightarrow> go_error option"
  DecodeFile :: "string \<Rightarrow> Config \<Rightarrow> go_error option \<times> Config"

text \<open>
  What the decoder of the release that \<open>go.mod\<close> requires (\<open>BurntSushi/toml\<close>
  v0.3.1) stores in a \<open>uint64\<close> field for an integer \<open>i\<close> of the file: the Go
  conversion \<open>uint64(i)\<close> of the \<open>int64\<close>, with no check of the sign.
\<close>

definition decoded_interval :: "int \<Rightarrow> uint64" where
  "decoded_interval i = word_of_int i"

definition loadConfig :: "os_env \<Rightarrow> string \<Rightarrow> Config \<times> go_error option" where
  "loadConfig os pathToConfig =
     (let config = zero_Config;
          (err, config) = DecodeFile os pathToConfig config
      in (config, err))"

section \<open>jenkins-metrics.go: logging and start-up\<close>

text \<open>
  A log entry is one call of the logger: its level, its format string and the error
  passed with it, when there is one (other arguments are not recorded). \<open>Fatal\<close> and
  \<open>Fatalf\<close> end the process.
\<close>

datatype log_level = DebugLevel | InfoLevel

datatype log_entry =
    Debugf string
  | Info string
  | Errorf string go_error
  | Fatalf string go_error
  | Fatal string

text \<open>
  The command line after \<open>flag.Parse\<close>: for each of the two flags, the value given,
  or \<open>None\<close> when the flag is not on the command line. The defaults are those of the
  \<open>flag.Bool\<close> and \<open>flag.String\<close> declarations.
\<close>

record command_line =
  arg_debug :: "bool option"
  arg_config :: "string option"

definition debugFlag :: "command_line \<Rightarrow> bool" where
  "debugFlag cl = (case arg_debug cl of None \<Rightarrow> False | Some b \<Rightarrow> b)"

definition configFileFlag :: "command_line \<Rightarrow> string" where
  "configFileFlag cl = (case arg_config cl of None \<Rightarrow> ''./config.toml'' | Some p \<Rightarrow> p)"

text \<open>
  The second \<open>init\<close> of the program (the one that loads the configuration), on a
  command line that \<open>flag.Parse\<close> accepts: it either ends the process with a fatal
  log entry, or leaves the global \<open>config\<close> and the log level, having logged the
  configuration at debug level.
\<close>

datatype startup = Exit_fatal log_entry | Started Config log_level "log_entry list"

definition init :: "os_env \<Rightarrow> command_line \<Rightarrow> startup" where
  "init os cl =
     (let level = (if debugFlag cl = True then DebugLevel else InfoLevel) in
      case Stat os (configFileFlag cl) of
        None \<Rightarrow>
          (case loadConfig os (configFileFlag cl) of
             (config, Some err) \<Rightarrow> Exit_fatal (Fatalf ''Unable to parse configuration file: %s'' err)
           | (config, None) \<Rightarrow>
               Started
                 (if UpdateInterval (Jenkins config) \<le> 0
                  then config\<lparr>Jenkins := (Jenkins config)\<lparr>UpdateInterval := 1800\<rparr>\<rparr>
                  else config)
                 level
                 [Debugf ''Configuration: %+v''])
      | Some err \<Rightarrow>
          Exit_fatal (Fatal (''Please provide a config file with `-config <yourconfig>` '' @
                             ''or just create `config.toml` in this directory'')))"

section \<open>jenkins-metrics.go: the gauge vectors\<close>

text \<open>
  The nine package-level \<open>GaugeVec\<close> variables, with the \<open>Name\<close> of their
  \<open>GaugeOpts\<close> and their label names as declared.
\<close>

datatype family =
    jenkinsRunningBuild
  | jenkinsRunningBuildPipelineStatus
  | jenkinsRunningBuildElapsedTime
  | jenkinsCompletedBuildSuccess
  | jenkinsCompletedBuildDurationSeconds
  | jenkinsCompletedBuildTimestamp
  | jenkinsCompletedBuildTestCount
  | jenkinsCompletedBuildTestCaseFailureAge
  | jenkinsCompletedBuildPipelineDurationSeconds

fun Opts_Name :: "family \<Rightarrow> string" where
  "Opts_Name jenkinsRunningBuild = ''jenkins_running_build''"
| "Opts_Name jenkinsRunningBuildPipelineStatus = ''jenkins_running_build_pipeline_status''"
| "Opts_Name jenkinsRunningBuildElapsedTime = ''jenkins_running_build_elapsed_time''"
| "Opts_Name jenkinsCompletedBuildSuccess = ''jenkins_build_success''"
| "Opts_Name jenkinsCompletedBuildDurationSeconds = ''jenkins_build_duration_seconds''"
| "Opts_Name jenkinsCompletedBuildTimestamp = ''jenkins_build_timestamp''"
| "Opts_Name jenkinsCompletedBuildTestCount = ''jenkins_build_test_count''"
| "Opts_Name jenkinsCompletedBuildTestCaseFailureAge = ''jenkins_build_test_case_failure_age''"
| "Opts_Name jenkinsCompletedBuildPipelineDurationSeconds = ''jenkins_build_pipeline_duration_seconds''"

fun variableLabels :: "family \<Rightarrow> string list" where
  "variableLabels jenkinsRunningBuild = [''jobname'', ''buildid'', ''isgood'']"
| "variableLabels jenkinsRunningBuildPipelineStatus = [''jobname'', ''buildid'', ''id'', ''stage'']"
| "variableLabels jenkinsRunningBuildElapsedTime = [''jobname'', ''buildid'', ''isgood'']"
| "variableLabels jenkinsCompletedBuildSuccess = [''jobname'', ''buildid'']"
| "variableLabels jenkinsCompletedBuildDurationSeconds = [''jobname'', ''buildid'']"
| "variableLabels jenkinsCompletedBuildTimestamp = [''jobname'', ''buildid'']"
| "variableLabels jenkinsCompletedBuildTestCount = [''jobname'', ''buildid'', ''result'']"
| "variableLabels jenkinsCompletedBuildTestCaseFailureAge =
     [''jobname'', ''buildid'', ''suite'', ''case'', ''status'', ''failedsince'']"
| "variableLabels jenkinsCompletedBuildPipelineDurationSeconds = [''jobname'', ''buildid'', ''id'', ''stage'']"

text \<open>The first \<open>init\<close>: the vectors handed to \<open>prometheus.MustRegister\<close>, in its order.\<close>

definition registered :: "family list" where
  "registered =
     [jenkinsRunningBuild, jenkinsRunningBuildElapsedTime, jenkinsRunningBuildPipelineStatus,
      jenkinsCompletedBuildSuccess, jenkinsCompletedBuildDurationSeconds,
      jenkinsCompletedBuildTimestamp, jenkinsCompletedBuildTestCount,
      jenkinsCompletedBuildPipelineDurationSeconds, jenkinsCompletedBuildTestCaseFailureAge]"

section \<open>The Jenkins client\<close>

text \<open>
  The client library is the environment of \<open>updateMetrics\<close>: each record below holds
  what the library's methods return on one polling tick. A method that returns a value
  and an error which the program checks is a sum (\<open>Inl\<close> the error); a method whose
  error the program discards is represented by the pointer it returns, \<open>None\<close> for
  \<open>nil\<close>. The fields of a pipeline stage, of a test case, of a suite and of a test
  report are the struct fields the program reads.
\<close>

record PipelineNode =
  stage_ID :: string
  stage_Name :: string
  stage_Status :: string
  stage_Duration :: int64

record PipelineRun =
  Stages :: "PipelineNode list"

record test_case =
  tc_Name :: string
  tc_Status :: string
  tc_Skipped :: bool
  tc_FailedSince :: int64
  tc_Age :: int64

record test_suite =
  suite_Name :: string
  Cases :: "test_case list"

record TestResult =
  FailCount :: int64
  SkipCount :: int64
  PassCount :: int64
  Suites :: "test_suite list"

text \<open>
  \<open>GetDuration_div_1000\<close> is the number that \<open>float64(b.GetDuration() / 1000)\<close>
  yields (the numeric type of \<open>GetDuration\<close> is the library's), and
  \<open>GetTimestamp_Unix\<close> is \<open>b.GetTimestamp().Local().Unix()\<close>.
\<close>

record Build =
  GetBuildNumber :: int64
  GetDuration_div_1000 :: real
  GetTimestamp_Unix :: int64
  GetResult :: string
  IsGood :: bool
  GetResultSet :: "TestResult option"

text \<open>\<open>IsRunning\<close> is the pair that \<open>job.IsRunning()\<close> returns: the boolean and the error.\<close>

record Job =
  GetName :: string
  GetLastCompletedBuild :: "go_error + Build"
  GetLastBuild :: "go_error + Build"
  IsRunning :: "bool \<times> go_error option"
  GetPipelineRun :: "string \<Rightarrow> PipelineRun option"

record gojenkins =
  Init :: "go_error option"
  GetJob :: "string \<Rightarrow> go_error + Job"

section \<open>jenkins-metrics.go: the process state\<close>

text \<open>
  A gauge holds a \<open>float64\<close>. Every \<open>float64\<close> that the program computes itself
  is the conversion \<open>float64(n)\<close> of an \<open>int64\<close>, or a small integer constant, and
  so is an integer; it is represented by that number. The conversion is exact up to
  \<open>2 ^ 53\<close> in magnitude; beyond, it rounds to the nearest number with a significand of
  53 bits, a tie going to the even significand: \<open>e\<close> below is the number of bits in
  excess of 53, at most 11 for an \<open>int64\<close>. A gauge vector maps the list of label values
  of a series to the series' value. The state of the process is the nine vectors, the
  entries logged so far, and the trace of what the program asked of the outside: the
  client calls that can return an error, and the sleeps of \<open>main\<close>.
\<close>

definition round_to_float64 :: "int \<Rightarrow> int" where
  "round_to_float64 i =
     (let a = \<bar>i\<bar> in
      if a \<le> 2 ^ 53 then i
      else (let e = length (filter (\<lambda>k. 2 ^ (53 + k) \<le> a) [0..<11]);
                q = a div 2 ^ e;
                r = a mod 2 ^ e;
                q' = (if 2 ^ (e - 1) < r \<or> (r = 2 ^ (e - 1) \<and> odd q) then q + 1 else q)
            in sgn i * (q' * 2 ^ e)))"

definition float64 :: "int64 \<Rightarrow> real" where
  "float64 n = real_of_int (round_to_float64 (sint n))"

datatype event =
    CreateJenkins string "(string \<times> string) option"
  | Call_Init
  | Call_GetJob string
  | Call_GetLastCompletedBuild string
  | Call_GetLastBuild string
  | Call_GetResultSet string
  | Call_IsRunning string
  | Call_GetPipelineRun string string
  | Sleep int64

record state =
  metrics :: "family \<Rightarrow> string list \<rightharpoonup> real"
  logged :: "log_entry list"
  trace :: "event list"

definition logf :: "log_entry \<Rightarrow> state \<Rightarrow> state" where
  "logf e s = s\<lparr>logged := logged s @ [e]\<rparr>"

definition called :: "event \<Rightarrow> state \<Rightarrow> state" where
  "called c s = s\<lparr>trace := trace s @ [c]\<rparr>"

text \<open>
  What \<open>GET /metrics\<close> returns for a state: one sample for each series of each
  registered vector, with the vector's name, its label names paired with the series'
  label values, and the value.
\<close>

definition scrape :: "state \<Rightarrow> (string \<times> (string \<times> string) list \<times> real) set" where
  "scrape s = {(Opts_Name v, zip (variableLabels v) lvs, x) | v lvs x.
                 v \<in> set registered \<and> metrics s v lvs = Some x}"

text \<open>
  A statement either lets control go on, returns from \<open>updateMetrics\<close>, or panics
  (which ends the process). \<open>steps\<close> runs statements in order up to the first that
  does not go on; a \<open>range\<close> loop is \<open>steps\<close> over the loop body mapped on the slice.
\<close>

datatype flow = Continue | Returned | Panicked

fun steps :: "(state \<Rightarrow> flow \<times> state) list \<Rightarrow> state \<Rightarrow> flow \<times> state" where
  "steps [] s = (Continue, s)"
| "steps (f # fs) s = (case f s of (Continue, s') \<Rightarrow> steps fs s' | (fl, s') \<Rightarrow> (fl, s'))"

definition Reset :: "family \<Rightarrow> state \<Rightarrow> flow \<times> state" where
  "Reset v s = (Continue, s\<lparr>metrics := (metrics s)(v := Map.empty)\<rparr>)"

text \<open>
  \<open>v.WithLabelValues(lvs...).Set(x)\<close>: \<open>WithLabelValues\<close> panics when the number of
  values is not the number of the vector's labels.
\<close>

definition WithLabelValues_Set :: "family \<Rightarrow> string list \<Rightarrow> real \<Rightarrow> state \<Rightarrow> flow \<times> state" where
  "WithLabelValues_Set v lvs x s =
     (if length lvs \<noteq> length (variableLabels v) then (Panicked, s)
      else (Continue, s\<lparr>metrics := (metrics s)(v := (metrics s v)(lvs \<mapsto> x))\<rparr>))"

section \<open>jenkins-metrics.go: updateMetrics\<close>

text \<open>The function literals of \<open>updateMetrics\<close>.\<close>

definition isRunning_value :: "bool \<Rightarrow> go_error option \<Rightarrow> real" where
  "isRunning_value running err = (if running then 1 else 0)"

definition isGood_label :: "bool \<Rightarrow> string" where
  "isGood_label isGood = (if isGood then ''1'' else ''0'')"

definition stage_status_value :: "string \<Rightarrow> real" where
  "stage_status_value status =
     (if status = ''SUCCESS'' then 0
      else if status = ''IN_PROGRESS'' then 1
      else if status = ''UNSTABLE'' then 2
      else if status = ''FAILED'' then 3
      else - 1)"

definition build_result_value :: "string \<Rightarrow> real" where
  "build_result_value result = (if result = ''FAILURE'' then 0 else 1)"

definition build_id :: "Build \<Rightarrow> string" where
  "build_id b = Itoa (sint (GetBuildNumber b))"

text \<open>"Simple metrics - test counts": the first use of \<open>resultset\<close>, a nil pointer when
  \<open>GetResultSet\<close> gave none.\<close>

definition test_counts :: "string list \<Rightarrow> TestResult option \<Rightarrow> state \<Rightarrow> flow \<times> state" where
  "test_counts commonArgs resultset s =
     (case resultset of
        None \<Rightarrow> (Panicked, s)
      | Some r \<Rightarrow>
          steps
            [WithLabelValues_Set jenkinsCompletedBuildTestCount (commonArgs @ [''fail'']) (float64 (FailCount r)),
             WithLabelValues_Set jenkinsCompletedBuildTestCount (commonArgs @ [''skip'']) (float64 (SkipCount r)),
             WithLabelValues_Set jenkinsCompletedBuildTestCount (commonArgs @ [''pass'']) (float64 (PassCount r))]
            s)"

text \<open>The loop over \<open>livePipe.Stages\<close>, with the local \<open>elapsedTime\<close>.\<close>

fun live_stages ::
  "Job \<Rightarrow> Build \<Rightarrow> PipelineNode list \<Rightarrow> int64 \<Rightarrow> state \<Rightarrow> flow \<times> int64 \<times> state" where
  "live_stages job lastBuild [] elapsedTime s = (Continue, elapsedTime, s)"
| "live_stages job lastBuild (stage # stages) elapsedTime s =
     (let elapsedTime = elapsedTime + int64_div (stage_Duration stage) 1000 in
      case WithLabelValues_Set jenkinsRunningBuildPipelineStatus
             [GetName job, build_id lastBuild, Sprintf_03s (stage_ID stage), stage_Name stage]
             (stage_status_value (stage_Status stage)) s of
        (Continue, s') \<Rightarrow> live_stages job lastBuild stages elapsedTime s'
      | (fl, s') \<Rightarrow> (fl, elapsedTime, s'))"

text \<open>"Is there any build running?" up to the elapsed time of the running build.\<close>

definition running_build :: "Job \<Rightarrow> string \<Rightarrow> Build \<Rightarrow> state \<Rightarrow> flow \<times> state" where
  "running_build job jobname lastBuild s0 =
     (let s = called (Call_IsRunning jobname) s0;
          isRunning = isRunning_value (fst (IsRunning job)) (snd (IsRunning job));
          isGood = isGood_label (IsGood lastBuild)
      in steps
           [WithLabelValues_Set jenkinsRunningBuild [GetName job, build_id lastBuild, isGood] isRunning,
            (\<lambda>s. if isRunning = 1 then
                    (let s = called (Call_GetPipelineRun jobname (build_id lastBuild)) s in
                     case GetPipelineRun job (build_id lastBuild) of
                       None \<Rightarrow> (Panicked, s)
                     | Some livePipe \<Rightarrow>
                         (case live_stages job lastBuild (Stages livePipe) 0 s of
                            (Continue, elapsedTime, s') \<Rightarrow>
                              WithLabelValues_Set jenkinsRunningBuildElapsedTime
                                [GetName job, build_id lastBuild, isGood] (float64 elapsedTime) s'
                          | (fl, elapsedTime, s') \<Rightarrow> (fl, s')))
                  else (Continue, s))]
           s)"

text \<open>"Iterate over failed and regression tests".\<close>

definition failed_test_case :: "string list \<Rightarrow> test_suite \<Rightarrow> test_case \<Rightarrow> state \<Rightarrow> flow \<times> state" where
  "failed_test_case commonArgs suite testcase s =
     (if \<not> tc_Skipped testcase \<and> tc_Status testcase \<noteq> ''PASSED'' then
        WithLabelValues_Set jenkinsCompletedBuildTestCaseFailureAge
          (commonArgs @ [suite_Name suite, tc_Name testcase, tc_Status testcase,
                         Itoa (sint (tc_FailedSince testcase))])
          (float64 (tc_Age testcase)) s
      else (Continue, s))"

definition failed_tests :: "string list \<Rightarrow> TestResult option \<Rightarrow> state \<Rightarrow> flow \<times> state" where
  "failed_tests commonArgs resultset s =
     (case resultset of
        None \<Rightarrow> (Panicked, s)
      | Some r \<Rightarrow>
          steps (map (\<lambda>suite. steps (map (failed_test_case commonArgs suite) (Cases suite))) (Suites r)) s)"

text \<open>"Last completed pipeline build duration".\<close>

definition completed_pipeline :: "Job \<Rightarrow> string \<Rightarrow> Build \<Rightarrow> state \<Rightarrow> flow \<times> state" where
  "completed_pipeline job jobname lastCompletedBuild s0 =
     (let s = called (Call_GetPipelineRun jobname (build_id lastCompletedBuild)) s0 in
      case GetPipelineRun job (build_id lastCompletedBuild) of
        None \<Rightarrow> (Panicked, s)
      | Some lastCompletedPipeline \<Rightarrow>
          steps
            (map (\<lambda>stage.
                    WithLabelValues_Set jenkinsCompletedBuildPipelineDurationSeconds
                      [GetName job, build_id lastCompletedBuild, Sprintf_03s (stage_ID stage),
                       stage_Name stage]
                      (float64 (int64_div (stage_Duration stage) 1000)))
               (Stages lastCompletedPipeline))
            s)"

text \<open>The body of the loop over the configured jobs, once the job and its two builds are there.\<close>

definition collect_job :: "Job \<Rightarrow> string \<Rightarrow> Build \<Rightarrow> Build \<Rightarrow> state \<Rightarrow> flow \<times> state" where
  "collect_job job jobname lastCompletedBuild lastBuild =
     (let commonArgs = [GetName job, build_id lastCompletedBuild];
          resultset = GetResultSet lastCompletedBuild
      in steps
           [WithLabelValues_Set jenkinsCompletedBuildDurationSeconds commonArgs
              (GetDuration_div_1000 lastCompletedBuild),
            WithLabelValues_Set jenkinsCompletedBuildTimestamp commonArgs
              (float64 (GetTimestamp_Unix lastCompletedBuild)),
            (\<lambda>s. (Continue, called (Call_GetResultSet jobname) s)),
            test_counts commonArgs resultset,
            running_build job jobname lastBuild,
            WithLabelValues_Set jenkinsCompletedBuildSuccess commonArgs
              (build_result_value (GetResult lastCompletedBuild)),
            failed_tests commonArgs resultset,
            completed_pipeline job jobname lastCompletedBuild,
            (\<lambda>s. (Continue, logf (Debugf ''Finished collecting metrics for job: %s'') s))])"

text \<open>The body of the loop over the configured jobs.\<close>

definition process_job :: "gojenkins \<Rightarrow> string \<Rightarrow> state \<Rightarrow> flow \<times> state" where
  "process_job jenkinsCli jobname s0 =
     (let s = called (Call_GetJob jobname) s0 in
      case GetJob jenkinsCli jobname of
        Inl err \<Rightarrow> (Returned, logf (Errorf ''Job Does Not Exist'' err) s)
      | Inr job \<Rightarrow>
          (let s = called (Call_GetLastCompletedBuild jobname) s in
           case GetLastCompletedBuild job of
             Inl err \<Rightarrow>
               (Returned,
                logf (Errorf (''Unable to collect metrics for job: '' @ jobname @
                              '' - unable to get Last Completed Build'') err) s)
           | Inr lastCompletedBuild \<Rightarrow>
               (let s = called (Call_GetLastBuild jobname) s in
                case GetLastBuild job of
                  Inl err \<Rightarrow>
                    (Returned,
                     logf (Errorf (''Unable to collect metrics for job: '' @ jobname @
                                   '' - unable to get Last Build'') err) s)
                | Inr lastBuild \<Rightarrow> collect_job job jobname lastCompletedBuild lastBuild s)))"

text \<open>The nine \<open>Reset\<close> calls, in the order of the source.\<close>

definition reset_all :: "(state \<Rightarrow> flow \<times> state) list" where
  "reset_all =
     [Reset jenkinsRunningBuild, Reset jenkinsRunningBuildElapsedTime,
      Reset jenkinsRunningBuildPipelineStatus, Reset jenkinsCompletedBuildSuccess,
      Reset jenkinsCompletedBuildDurationSeconds, Reset jenkinsCompletedBuildTestCount,
      Reset jenkinsCompletedBuildPipelineDurationSeconds,
      Reset jenkinsCompletedBuildTestCaseFailureAge, Reset jenkinsCompletedBuildTimestamp]"

definition updateMetrics :: "Config \<Rightarrow> gojenkins \<Rightarrow> state \<Rightarrow> flow \<times> state" where
  "updateMetrics config jenkinsCli s0 =
     (let s = logf (Debugf ''Connecting to Jenkins API and collecting metrics...'') s0;
          s = called (CreateJenkins (URL (Jenkins config))
                        (if User (Jenkins config) \<noteq> []
                         then Some (User (Jenkins config), Password (Jenkins config))
                         else None)) s;
          s = called Call_Init s
      in case Init jenkinsCli of
           Some err \<Rightarrow> (Returned, logf (Errorf ''Unable to connect to Jenkins'' err) s)
         | None \<Rightarrow> steps (reset_all @ map (process_job jenkinsCli) (Jobs (Jenkins config))) s)"

text \<open>
  The polling goroutine of \<open>main\<close>: \<open>updateMetrics\<close>, then a sleep of
  \<open>time.Duration(UpdateInterval) * time.Second\<close> nanoseconds, for ever. The loop is run
  here on a list of what the Jenkins server answers on each tick, one tick per element;
  a panic ends it.
\<close>

fun poll :: "Config \<Rightarrow> gojenkins list \<Rightarrow> state \<Rightarrow> flow \<times> state" where
  "poll config [] s = (Continue, s)"
| "poll config (jenkinsCli # ticks) s =
     (case updateMetrics config jenkinsCli s of
        (Panicked, s') \<Rightarrow> (Panicked, s')
      | (fl, s') \<Rightarrow>
          poll config ticks (called (Sleep (UpdateInterval (Jenkins config) * 1000000000)) s'))"

text \<open>The state when \<open>main\<close> starts: no series, nothing logged, nothing asked.\<close>

definition initial_state :: state where
  "initial_state = \<lparr>metrics = (\<lambda>v. Map.empty), logged = [], trace = []\<rparr>"

section \<open>Notions used in the statements and proofs\<close>

text \<open>
  \<open>grows n s s'\<close>: every series of \<open>s'\<close> is a series of \<open>s\<close> with the same value, or has
  as many label values as its vector has labels and \<open>n\<close> as the first of them.
\<close>

definition grows :: "string \<Rightarrow> state \<Rightarrow> state \<Rightarrow> bool" where
  "grows n s s' = (\<forall>v lvs x. metrics s' v lvs = Some x \<longrightarrow>
      metrics s v lvs = Some x \<or> (length lvs = length (variableLabels v) \<and> hd lvs = n))"

definition step_grows :: "string \<Rightarrow> (state \<Rightarrow> flow \<times> state) \<Rightarrow> bool" where
  "step_grows n f = (\<forall>s. grows n s (snd (f s)))"

text \<open>
  The value that a run of \<open>Set\<close> calls, one for each element of a list, leaves at the
  label values \<open>k\<close>: that of the last element whose label values are \<open>k\<close>, or the value
  \<open>d\<close> from before when there is none.
\<close>

fun last_value :: "('a \<Rightarrow> string list) \<Rightarrow> ('a \<Rightarrow> real) \<Rightarrow> 'a list \<Rightarrow> string list \<Rightarrow> real option \<Rightarrow> real option" where
  "last_value lbl val [] k d = d"
| "last_value lbl val (x # xs) k d = last_value lbl val xs k (if lbl x = k then Some (val x) else d)"

text \<open>
  The test cases of a report that are not skipped and whose status is not \<open>PASSED\<close>,
  each with its suite, in the order of the report, and the label values of their series.
\<close>

definition failing :: "TestResult \<Rightarrow> (test_suite \<times> test_case) list" where
  "failing r = concat (map (\<lambda>su. map (\<lambda>c. (su, c))
       (filter (\<lambda>c. \<not> tc_Skipped c \<and> tc_Status c \<noteq> ''PASSED'') (Cases su))) (Suites r))"

definition fa_labels :: "string list \<Rightarrow> test_suite \<times> test_case \<Rightarrow> string list" where
  "fa_labels ca p = ca @ [suite_Name (fst p), tc_Name (snd p), tc_Status (snd p), Itoa (sint (tc_FailedSince (snd p)))]"

text \<open>
  Every series has as many label values as its vector has labels (\<open>well_formed\<close>), and
  its first label value is the name of a job that the client returns for one of the
  given job names (\<open>labelled_by\<close>).
\<close>

definition labelled_by :: "gojenkins \<Rightarrow> string list \<Rightarrow> state \<Rightarrow> bool" where
  "labelled_by J names s = (\<forall>v lvs x. metrics s v lvs = Some x \<longrightarrow>
      length lvs = length (variableLabels v) \<and>
      (\<exists>jobname\<in>set names. \<exists>job. GetJob J jobname = Inr job \<and> hd lvs = GetName job))"

definition well_formed :: "state \<Rightarrow> bool" where
  "well_formed s = (\<forall>v lvs x. metrics s v lvs = Some x \<longrightarrow> length lvs = length (variableLabels v))"

section \<open>A worked example\<close>

text \<open>
  A configuration file \<open>./config.toml\<close> that sets the server and one job and no
  interval, a file \<open>./minute.toml\<close> that sets an interval of 60 seconds as well, a file
  \<open>./negative.toml\<close> that sets an interval of -5, a
  file \<open>./broken.toml\<close> that does not parse, and no other file; a Jenkins server
  with the job \<open>app\<close>, whose last completed build 7 failed
  with one failed, one passed and one skipped test, and whose build 8 is running a
  pipeline of two stages; a job \<open>flaky\<close> like it, for which \<open>IsRunning\<close> fails (and
  the same server, \<open>example_steady\<close>, when it does not fail); a job \<open>fresh\<close> without
  a completed build, a job \<open>broken\<close>
  whose last build cannot be fetched, and no other job; the same server when it cannot
  be reached; and a state left by an earlier cycle, with one series of a job \<open>old\<close>.
\<close>

definition example_os :: os_env where
  "example_os =
     \<lparr>Stat = (\<lambda>path.
        if path \<in> {''./config.toml'', ''./minute.toml'', ''./negative.toml'', ''./broken.toml''} then None
        else Some ''no such file or directory''),
      DecodeFile = (\<lambda>path config.
        if path = ''./broken.toml'' then (Some ''expected key separator'', config)
        else if path = ''./minute.toml''
        then (None, config\<lparr>Jenkins := (Jenkins config)
                 \<lparr>URL := ''http://jenkins'', Jobs := [''app''], UpdateInterval := decoded_interval 60\<rparr>\<rparr>)
        else if path = ''./negative.toml''
        then (None, config\<lparr>Jenkins := (Jenkins config)
                 \<lparr>URL := ''http://jenkins'', Jobs := [''app''], UpdateInterval := decoded_interval (- 5)\<rparr>\<rparr>)
        else (None, config\<lparr>Jenkins := (Jenkins config)\<lparr>URL := ''http://jenkins'', Jobs := [''app'']\<rparr>\<rparr>))\<rparr>"

definition example_flag :: "string \<Rightarrow> command_line" where
  "example_flag path = \<lparr>arg_debug = None, arg_config = Some path\<rparr>"

definition example_no_flags :: command_line where
  "example_no_flags = \<lparr>arg_debug = None, arg_config = None\<rparr>"

definition example_stages :: "PipelineNode list" where
  "example_stages =
     [\<lparr>stage_ID = ''6'', stage_Name = ''Build'', stage_Status = ''SUCCESS'', stage_Duration = 2500\<rparr>,
      \<lparr>stage_ID = ''11'', stage_Name = ''Test'', stage_Status = ''IN_PROGRESS'', stage_Duration = 1999\<rparr>]"

definition example_resultset :: TestResult where
  "example_resultset =
     \<lparr>FailCount = 1, SkipCount = 1, PassCount = 1,
      Suites = [\<lparr>suite_Name = ''unit'',
                 Cases = [\<lparr>tc_Name = ''t1'', tc_Status = ''FAILED'', tc_Skipped = False,
                           tc_FailedSince = 6, tc_Age = 2\<rparr>,
                          \<lparr>tc_Name = ''t2'', tc_Status = ''PASSED'', tc_Skipped = False,
                           tc_FailedSince = 0, tc_Age = 0\<rparr>,
                          \<lparr>tc_Name = ''t3'', tc_Status = ''SKIPPED'', tc_Skipped = True,
                           tc_FailedSince = 0, tc_Age = 0\<rparr>]\<rparr>]\<rparr>"

definition example_completed :: Build where
  "example_completed =
     \<lparr>GetBuildNumber = 7, GetDuration_div_1000 = 65, GetTimestamp_Unix = 1600000000,
      GetResult = ''FAILURE'', IsGood = False, GetResultSet = Some example_resultset\<rparr>"

definition example_last :: Build where
  "example_last =
     \<lparr>GetBuildNumber = 8, GetDuration_div_1000 = 0, GetTimestamp_Unix = 1600000900,
      GetResult = [], IsGood = False, GetResultSet = None\<rparr>"

definition example_job :: Job where
  "example_job =
     \<lparr>GetName = ''app'', GetLastCompletedBuild = Inr example_completed,
      GetLastBuild = Inr example_last, IsRunning = (True, None),
      GetPipelineRun = (\<lambda>id. Some \<lparr>Stages = example_stages\<rparr>)\<rparr>"

definition example_flaky :: Job where
  "example_flaky = example_job\<lparr>GetName := ''flaky'', IsRunning := (False, Some ''connection refused'')\<rparr>"

definition example_jenkins :: gojenkins where
  "example_jenkins =
     \<lparr>Init = None,
      GetJob = (\<lambda>jobname.
        if jobname = ''app'' then Inr example_job
        else if jobname = ''flaky'' then Inr example_flaky
        else if jobname = ''fresh'' then Inr (example_job\<lparr>GetLastCompletedBuild := Inl ''404''\<rparr>)
        else if jobname = ''broken'' then Inr (example_job\<lparr>GetLastBuild := Inl ''timeout''\<rparr>)
        else Inl ''404'')\<rparr>"

definition example_steady :: gojenkins where
  "example_steady =
     example_jenkins\<lparr>GetJob := (GetJob example_jenkins)
       (''flaky'' := Inr (example_flaky\<lparr>IsRunning := (False, None)\<rparr>))\<rparr>"

definition example_down :: gojenkins where
  "example_down = example_jenkins\<lparr>Init := Some ''connection refused''\<rparr>"

definition example_config :: "string list \<Rightarrow> Config" where
  "example_config jobs =
     \<lparr>Jenkins = \<lparr>URL = ''http://jenkins'', User = [], Password = [], Jobs = jobs,
                  UpdateInterval = 1800\<rparr>\<rparr>"

definition example_stale :: state where
  "example_stale =
     initial_state\<lparr>metrics :=
       (\<lambda>v. if v = jenkinsCompletedBuildSuccess then [[''old'', ''3''] \<mapsto> 1] else Map.empty)\<rparr>"

section \<open>Lemmas\<close>

lemma steps_append:
  "steps (fs @ gs) s = (case steps fs s of (Continue, s') \<Rightarrow> steps gs s' | (fl, s') \<Rightarrow> (fl, s'))"
  by (induction fs arbitrary: s) (auto split: prod.splits flow.splits)

lemma grows_refl: "grows n s s"
  by (simp add: grows_def)

lemma grows_trans: "grows n s t \<Longrightarrow> grows n t u \<Longrightarrow> grows n s u"
  unfolding grows_def by blast

lemma grows_metrics_eq: "metrics t = metrics s \<Longrightarrow> grows n s t"
  by (simp add: grows_def)

lemma step_grows_Set: "step_grows n (WithLabelValues_Set v (n # lvs) x)"
  by (auto simp: step_grows_def grows_def WithLabelValues_Set_def split: if_splits)

lemma step_growsD: "step_grows n f \<Longrightarrow> f s = (fl, s') \<Longrightarrow> grows n s s'"
  unfolding step_grows_def by (metis snd_conv)

lemma step_grows_steps: "\<forall>f\<in>set fs. step_grows n f \<Longrightarrow> step_grows n (steps fs)"
proof (induction fs)
  case Nil
  show ?case by (simp add: step_grows_def grows_refl)
next
  case (Cons f fs)
  have f: "step_grows n f" and fs: "step_grows n (steps fs)"
    using Cons by simp_all
  show ?case
    unfolding step_grows_def
  proof
    fix s
    obtain fl s' where r: "f s = (fl, s')" by (cases "f s")
    have g1: "grows n s s'" using f r by (rule step_growsD)
    show "grows n s (snd (steps (f # fs) s))"
    proof (cases fl)
      case Continue
      have "grows n s' (snd (steps fs s'))" using fs by (simp add: step_grows_def)
      with g1 show ?thesis using r Continue by (auto intro: grows_trans)
    next
      case Returned
      with g1 r show ?thesis by simp
    next
      case Panicked
      with g1 r show ?thesis by simp
    qed
  qed
qed

lemma step_grows_called: "step_grows n (\<lambda>s. (fl, called c s))"
  by (simp add: step_grows_def grows_def called_def)

lemma step_grows_logf: "step_grows n (\<lambda>s. (fl, logf c s))"
  by (simp add: step_grows_def grows_def logf_def)

lemma step_grows_after_called:
  assumes "step_grows n f"
  shows "step_grows n (\<lambda>s. f (called c s))"
  unfolding step_grows_def
proof
  fix s
  have "grows n s (called c s)" by (simp add: grows_def called_def)
  moreover have "grows n (called c s) (snd (f (called c s)))"
    using assms by (simp add: step_grows_def)
  ultimately show "grows n s (snd (f (called c s)))" by (rule grows_trans)
qed

lemma step_grows_test_counts: "step_grows n (test_counts [n, b] r)"
proof (cases r)
  case None
  then show ?thesis by (simp add: test_counts_def step_grows_def grows_refl)
next
  case (Some a)
  have "step_grows n (steps
            [WithLabelValues_Set jenkinsCompletedBuildTestCount ([n, b] @ [''fail'']) (float64 (FailCount a)),
             WithLabelValues_Set jenkinsCompletedBuildTestCount ([n, b] @ [''skip'']) (float64 (SkipCount a)),
             WithLabelValues_Set jenkinsCompletedBuildTestCount ([n, b] @ [''pass'']) (float64 (PassCount a))])"
    by (rule step_grows_steps) (simp add: step_grows_Set)
  then show ?thesis using Some by (simp add: test_counts_def step_grows_def)
qed

lemma grows_live_stages:
  "GetName job = n \<Longrightarrow> grows n s (snd (snd (live_stages job lb stages e s)))"
proof (induction stages arbitrary: e s)
  case Nil
  show ?case by (simp add: grows_refl)
next
  case (Cons a stages)
  let ?f = "WithLabelValues_Set jenkinsRunningBuildPipelineStatus
             [GetName job, build_id lb, Sprintf_03s (stage_ID a), stage_Name a]
             (stage_status_value (stage_Status a))"
  obtain fl s' where r: "?f s = (fl, s')" by (cases "?f s")
  have g1: "grows n s s'"
    using step_grows_Set r unfolding Cons.prems [symmetric] by (rule step_growsD)
  show ?case
  proof (cases fl)
    case Continue
    then show ?thesis using r g1 Cons.IH [OF Cons.prems] by (auto simp: Let_def intro: grows_trans)
  next
    case Returned
    then show ?thesis using r g1 by (simp add: Let_def)
  next
    case Panicked
    then show ?thesis using r g1 by (simp add: Let_def)
  qed
qed


lemma grows_Set: "grows n s (snd (WithLabelValues_Set v (n # lvs) x s))"
  using step_grows_Set by (simp add: step_grows_def)

lemma step_grows_elapsed:
  assumes n: "GetName job = n"
  shows "step_grows n (\<lambda>s. if c then
                    (let s = called ev s in
                     case p of
                       None \<Rightarrow> (Panicked, s)
                     | Some livePipe \<Rightarrow>
                         (case live_stages job lastBuild (Stages livePipe) 0 s of
                            (Continue, elapsedTime, s') \<Rightarrow>
                              WithLabelValues_Set jenkinsRunningBuildElapsedTime
                                [GetName job, b, g] (float64 elapsedTime) s'
                          | (fl, elapsedTime, s') \<Rightarrow> (fl, s')))
                  else (Continue, s))"
proof (cases c)
  case False
  then show ?thesis by (simp add: step_grows_def grows_refl)
next
  case True
  show ?thesis
  proof (cases p)
    case None
    then show ?thesis using True by (simp add: step_grows_called)
  next
    case (Some lp)
    have "step_grows n (\<lambda>s. case live_stages job lastBuild (Stages lp) 0 s of
                            (Continue, elapsedTime, s') \<Rightarrow>
                              WithLabelValues_Set jenkinsRunningBuildElapsedTime
                                [GetName job, b, g] (float64 elapsedTime) s'
                          | (fl, elapsedTime, s') \<Rightarrow> (fl, s'))"
      unfolding step_grows_def
    proof
      fix s
      obtain fl e s' where r: "live_stages job lastBuild (Stages lp) 0 s = (fl, e, s')"
        by (cases "live_stages job lastBuild (Stages lp) 0 s")
      have g1: "grows n s s'" using grows_live_stages [OF n, of s lastBuild "Stages lp" 0] r by simp
      have g2: "grows n s' (snd (WithLabelValues_Set jenkinsRunningBuildElapsedTime
                                [GetName job, b, g] (float64 e) s'))"
        unfolding n by (rule grows_Set)
      show "grows n s (snd (case live_stages job lastBuild (Stages lp) 0 s of
                            (Continue, elapsedTime, s') \<Rightarrow>
                              WithLabelValues_Set jenkinsRunningBuildElapsedTime
                                [GetName job, b, g] (float64 elapsedTime) s'
                          | (fl, elapsedTime, s') \<Rightarrow> (fl, s')))"
        using r g1 g2 by (cases fl) (auto intro: grows_trans)
    qed
    from step_grows_after_called [OF this, of ev]
    show ?thesis using True Some by simp
  qed
qed

lemma step_grows_running_build:
  assumes n: "GetName job = n"
  shows "step_grows n (running_build job jobname lb)"
proof -
  have a: "step_grows n (steps
           [WithLabelValues_Set jenkinsRunningBuild [GetName job, build_id lb, isGood_label (IsGood lb)]
              (isRunning_value (fst (IsRunning job)) (snd (IsRunning job))),
            (\<lambda>s. if isRunning_value (fst (IsRunning job)) (snd (IsRunning job)) = 1 then
                    (let s = called (Call_GetPipelineRun jobname (build_id lb)) s in
                     case GetPipelineRun job (build_id lb) of
                       None \<Rightarrow> (Panicked, s)
                     | Some livePipe \<Rightarrow>
                         (case live_stages job lb (Stages livePipe) 0 s of
                            (Continue, elapsedTime, s') \<Rightarrow>
                              WithLabelValues_Set jenkinsRunningBuildElapsedTime
                                [GetName job, build_id lb, isGood_label (IsGood lb)] (float64 elapsedTime) s'
                          | (fl, elapsedTime, s') \<Rightarrow> (fl, s')))
                  else (Continue, s))])"
    apply (rule step_grows_steps)
    apply (simp add: step_grows_elapsed [OF n])
    apply (simp add: n step_grows_Set)
    done
  have "running_build job jobname lb = (\<lambda>s. steps
           [WithLabelValues_Set jenkinsRunningBuild [GetName job, build_id lb, isGood_label (IsGood lb)]
              (isRunning_value (fst (IsRunning job)) (snd (IsRunning job))),
            (\<lambda>s. if isRunning_value (fst (IsRunning job)) (snd (IsRunning job)) = 1 then
                    (let s = called (Call_GetPipelineRun jobname (build_id lb)) s in
                     case GetPipelineRun job (build_id lb) of
                       None \<Rightarrow> (Panicked, s)
                     | Some livePipe \<Rightarrow>
                         (case live_stages job lb (Stages livePipe) 0 s of
                            (Continue, elapsedTime, s') \<Rightarrow>
                              WithLabelValues_Set jenkinsRunningBuildElapsedTime
                                [GetName job, build_id lb, isGood_label (IsGood lb)] (float64 elapsedTime) s'
                          | (fl, elapsedTime, s') \<Rightarrow> (fl, s')))
                  else (Continue, s))] (called (Call_IsRunning jobname) s))"
    by (rule ext) (simp add: running_build_def Let_def)
  then show ?thesis using step_grows_after_called [OF a] by simp
qed

lemma step_grows_failed_test_case: "step_grows n (failed_test_case [n, b] su c)"
  using step_grows_Set [of n jenkinsCompletedBuildTestCaseFailureAge]
  by (simp add: failed_test_case_def step_grows_def grows_refl)

lemma step_grows_failed_tests: "step_grows n (failed_tests [n, b] r)"
proof (cases r)
  case None
  then show ?thesis by (simp add: failed_tests_def step_grows_def grows_refl)
next
  case (Some a)
  have "step_grows n (steps (map (\<lambda>suite. steps (map (failed_test_case [n, b] suite) (Cases suite))) (Suites a)))"
    by (intro step_grows_steps ballI) (auto intro!: step_grows_steps simp: step_grows_failed_test_case)
  then show ?thesis using Some by (simp add: failed_tests_def step_grows_def)
qed

lemma step_grows_completed_pipeline:
  assumes n: "GetName job = n"
  shows "step_grows n (completed_pipeline job jobname lcb)"
proof (cases "GetPipelineRun job (build_id lcb)")
  case None
  have "completed_pipeline job jobname lcb = (\<lambda>s. (Panicked, called (Call_GetPipelineRun jobname (build_id lcb)) s))"
    by (rule ext) (simp add: completed_pipeline_def None)
  then show ?thesis by (simp add: step_grows_called)
next
  case (Some cp)
  have a: "step_grows n (steps
            (map (\<lambda>stage.
                    WithLabelValues_Set jenkinsCompletedBuildPipelineDurationSeconds
                      [GetName job, build_id lcb, Sprintf_03s (stage_ID stage),
                       stage_Name stage]
                      (float64 (int64_div (stage_Duration stage) 1000)))
               (Stages cp)))"
    by (rule step_grows_steps) (auto simp: n step_grows_Set)
  have "completed_pipeline job jobname lcb = (\<lambda>s. steps
            (map (\<lambda>stage.
                    WithLabelValues_Set jenkinsCompletedBuildPipelineDurationSeconds
                      [GetName job, build_id lcb, Sprintf_03s (stage_ID stage),
                       stage_Name stage]
                      (float64 (int64_div (stage_Duration stage) 1000)))
               (Stages cp)) (called (Call_GetPipelineRun jobname (build_id lcb)) s))"
    by (rule ext) (simp add: completed_pipeline_def Some)
  then show ?thesis using step_grows_after_called [OF a] by simp
qed

lemma step_grows_collect_job:
  assumes n: "GetName job = n"
  shows "step_grows n (collect_job job jobname lcb lb)"
  unfolding collect_job_def Let_def
  apply (rule step_grows_steps)
  apply (simp add: n step_grows_Set step_grows_called step_grows_logf step_grows_test_counts
      step_grows_failed_tests step_grows_running_build [OF n] step_grows_completed_pipeline [OF n])
  done

lemma process_job_grows:
  "GetJob J jobname = Inr job \<Longrightarrow> grows (GetName job) s (snd (process_job J jobname s))"
proof -
  assume j: "GetJob J jobname = Inr job"
  have c: "\<And>t. grows (GetName job) t (snd (collect_job job jobname lcb lb t))" for lcb lb
    using step_grows_collect_job [of job "GetName job"] by (simp add: step_grows_def)
  have m: "\<And>t. metrics t = metrics s \<Longrightarrow> grows (GetName job) s t"
    by (simp add: grows_def)
  show ?thesis
    unfolding process_job_def Let_def j
    apply (simp split: sum.splits)
    apply (intro conjI allI impI)
      apply (simp add: m logf_def called_def)
      apply (simp add: m logf_def called_def)
    apply (rule grows_trans [OF _ c])
    apply (simp add: m called_def)
    done
qed

lemma process_job_no_job:
  "GetJob J jobname = Inl e \<Longrightarrow> metrics (snd (process_job J jobname s)) = metrics s"
  by (simp add: process_job_def logf_def called_def)

lemma last_value_append:
  "last_value lbl val (xs @ ys) k d = last_value lbl val ys k (last_value lbl val xs k d)"
  by (induction xs arbitrary: d) simp_all

lemma last_value_none:
  "\<forall>x\<in>set xs. lbl x \<noteq> k \<Longrightarrow> last_value lbl val xs k d = d"
  by (induction xs arbitrary: d) simp_all

lemma last_value_some:
  "\<exists>x\<in>set xs. lbl x = k \<Longrightarrow> \<exists>y\<in>set xs. lbl y = k \<and> last_value lbl val xs k d = Some (val y)"
proof (induction xs rule: rev_induct)
  case Nil
  then show ?case by simp
next
  case (snoc a xs)
  show ?case
  proof (cases "lbl a = k")
    case True
    then show ?thesis by (simp add: last_value_append)
  next
    case False
    with snoc show ?thesis by (auto simp: last_value_append)
  qed
qed

lemma last_value_distinct:
  "distinct (map lbl xs) \<Longrightarrow> x \<in> set xs \<Longrightarrow> last_value lbl val xs (lbl x) d = Some (val x)"
proof (induction xs rule: rev_induct)
  case Nil
  then show ?case by simp
next
  case (snoc a xs)
  show ?case
  proof (cases "x = a")
    case True
    then show ?thesis by (simp add: last_value_append)
  next
    case False
    with snoc.prems have "x \<in> set xs" and "lbl a \<noteq> lbl x" and "distinct (map lbl xs)"
      by auto
    with snoc.IH show ?thesis by (simp add: last_value_append)
  qed
qed

lemma steps_Cons_if:
  "steps (f # fs) s = (if fst (f s) = Continue then steps fs (snd (f s)) else f s)"
  by (cases "f s"; cases "fst (f s)") auto

lemma Set_flow [simp]:
  "fst (WithLabelValues_Set v lvs x s) = Continue \<longleftrightarrow> length lvs = length (variableLabels v)"
  by (simp add: WithLabelValues_Set_def)

lemma Set_metrics:
  "length lvs = length (variableLabels v) \<Longrightarrow>
   metrics (snd (WithLabelValues_Set v lvs x s)) w k =
     (if w = v \<and> k = lvs then Some x else metrics s w k)"
  by (simp add: WithLabelValues_Set_def)

lemma sets_loop_flow:
  "\<forall>x\<in>set xs. length (lbl x) = length (variableLabels v) \<Longrightarrow>
   fst (steps (map (\<lambda>x. WithLabelValues_Set v (lbl x) (val x)) xs) s) = Continue"
  by (induction xs arbitrary: s) (simp_all del: steps.simps(2) add: steps_Cons_if)

lemma sets_loop_metrics:
  "\<forall>x\<in>set xs. length (lbl x) = length (variableLabels v) \<Longrightarrow>
   metrics (snd (steps (map (\<lambda>x. WithLabelValues_Set v (lbl x) (val x)) xs) s)) w k =
     (if w = v then last_value lbl val xs k (metrics s v k) else metrics s w k)"
proof (induction xs arbitrary: s)
  case Nil
  show ?case by simp
next
  case (Cons a xs)
  then show ?case by (simp del: steps.simps(2) add: steps_Cons_if Set_metrics)
qed

lemma live_stages_flow: "fst (live_stages job lb stages e s) = Continue"
  by (induction stages arbitrary: e s) (simp_all add: WithLabelValues_Set_def)

lemma live_stages_elapsed:
  "fst (snd (live_stages job lb stages e s)) =
     e + sum_list (map (\<lambda>st. int64_div (stage_Duration st) 1000) stages)"
  by (induction stages arbitrary: e s) (simp_all add: WithLabelValues_Set_def add.assoc)

lemma live_stages_metrics:
  "metrics (snd (snd (live_stages job lb stages e s))) w k =
     (if w = jenkinsRunningBuildPipelineStatus
      then last_value (\<lambda>st. [GetName job, build_id lb, Sprintf_03s (stage_ID st), stage_Name st])
             (\<lambda>st. stage_status_value (stage_Status st)) stages k
             (metrics s jenkinsRunningBuildPipelineStatus k)
      else metrics s w k)"
  by (induction stages arbitrary: e s) (simp_all add: WithLabelValues_Set_def)

lemma failed_test_case_flow:
  "length ca = 2 \<Longrightarrow> fst (failed_test_case ca su c s) = Continue"
  by (simp add: failed_test_case_def)

lemma failed_test_case_metrics:
  "length ca = 2 \<Longrightarrow>
   metrics (snd (failed_test_case ca su c s)) w k =
     (if w = jenkinsCompletedBuildTestCaseFailureAge \<and> \<not> tc_Skipped c \<and> tc_Status c \<noteq> ''PASSED''
         \<and> k = fa_labels ca (su, c)
      then Some (float64 (tc_Age c)) else metrics s w k)"
  by (simp add: failed_test_case_def Set_metrics fa_labels_def)

lemma cases_loop_flow:
  "length ca = 2 \<Longrightarrow> fst (steps (map (failed_test_case ca su) cs) s) = Continue"
  by (induction cs arbitrary: s) (simp_all del: steps.simps(2) add: steps_Cons_if failed_test_case_flow)

lemma cases_loop_metrics:
  "length ca = 2 \<Longrightarrow>
   metrics (snd (steps (map (failed_test_case ca su) cs) s)) w k =
     (if w = jenkinsCompletedBuildTestCaseFailureAge
      then last_value (fa_labels ca) (\<lambda>p. float64 (tc_Age (snd p)))
             (map (\<lambda>c. (su, c)) (filter (\<lambda>c. \<not> tc_Skipped c \<and> tc_Status c \<noteq> ''PASSED'') cs)) k
             (metrics s jenkinsCompletedBuildTestCaseFailureAge k)
      else metrics s w k)"
proof (induction cs arbitrary: s)
  case Nil
  show ?case by simp
next
  case (Cons c cs)
  then show ?case
    by (simp del: steps.simps(2) add: steps_Cons_if failed_test_case_flow failed_test_case_metrics eq_commute [of k])
qed

lemma suites_loop_flow:
  "length ca = 2 \<Longrightarrow>
   fst (steps (map (\<lambda>suite. steps (map (failed_test_case ca suite) (Cases suite))) sus) s) = Continue"
  by (induction sus arbitrary: s) (simp_all del: steps.simps(2) add: steps_Cons_if cases_loop_flow)

lemma suites_loop_metrics:
  "length ca = 2 \<Longrightarrow>
   metrics (snd (steps (map (\<lambda>suite. steps (map (failed_test_case ca suite) (Cases suite))) sus) s)) w k =
     (if w = jenkinsCompletedBuildTestCaseFailureAge
      then last_value (fa_labels ca) (\<lambda>p. float64 (tc_Age (snd p)))
             (concat (map (\<lambda>su. map (\<lambda>c. (su, c))
                (filter (\<lambda>c. \<not> tc_Skipped c \<and> tc_Status c \<noteq> ''PASSED'') (Cases su))) sus)) k
             (metrics s jenkinsCompletedBuildTestCaseFailureAge k)
      else metrics s w k)"
proof (induction sus arbitrary: s)
  case Nil
  show ?case by simp
next
  case (Cons su sus)
  then show ?case
    by (simp del: steps.simps(2) add: steps_Cons_if cases_loop_flow cases_loop_metrics last_value_append)
qed

lemma test_counts_flow:
  "length ca = 2 \<Longrightarrow> fst (test_counts ca r s) = Continue \<longleftrightarrow> r \<noteq> None"
  by (cases r) (simp_all add: test_counts_def steps_Cons_if del: steps.simps(2))

lemma test_counts_metrics:
  "length ca = 2 \<Longrightarrow> w \<noteq> jenkinsCompletedBuildTestCount \<Longrightarrow>
   metrics (snd (test_counts ca r s)) w k = metrics s w k"
  by (cases r) (simp_all add: test_counts_def steps_Cons_if Set_metrics del: steps.simps(2))

lemma live_stages_eq:
  "live_stages job lb stages e s =
     (Continue, e + sum_list (map (\<lambda>st. int64_div (stage_Duration st) 1000) stages),
      snd (snd (live_stages job lb stages e s)))"
  using live_stages_flow [of job lb stages e s] live_stages_elapsed [of job lb stages e s]
  by (cases "live_stages job lb stages e s") simp

lemma elapsed_part:
  "(case live_stages job lb stages 0 s of
      (Continue, elapsedTime, s') \<Rightarrow>
         WithLabelValues_Set jenkinsRunningBuildElapsedTime lvs (float64 elapsedTime) s'
    | (fl, elapsedTime, s') \<Rightarrow> (fl, s')) =
   WithLabelValues_Set jenkinsRunningBuildElapsedTime lvs
     (float64 (sum_list (map (\<lambda>st. int64_div (stage_Duration st) 1000) stages)))
     (snd (snd (live_stages job lb stages 0 s)))"
  by (subst live_stages_eq) simp

lemma running_build_flow:
  "fst (running_build job jobname lb s) = Continue \<longleftrightarrow>
     (fst (IsRunning job) \<longrightarrow> GetPipelineRun job (build_id lb) \<noteq> None)"
  by (cases "GetPipelineRun job (build_id lb)")
     (simp_all add: running_build_def Let_def steps_Cons_if elapsed_part isRunning_value_def
        del: steps.simps(2))

lemma running_build_idle:
  "\<not> fst (IsRunning job) \<Longrightarrow>
   metrics (snd (running_build job jobname lb s)) w k =
     (if w = jenkinsRunningBuild \<and> k = [GetName job, build_id lb, isGood_label (IsGood lb)]
      then Some 0 else metrics s w k)"
  by (simp add: running_build_def Let_def steps_Cons_if Set_metrics isRunning_value_def called_def
        del: steps.simps(2))

lemma running_build_running:
  "fst (IsRunning job) \<Longrightarrow> GetPipelineRun job (build_id lb) = Some livePipe \<Longrightarrow>
   metrics (snd (running_build job jobname lb s)) w k =
     (if w = jenkinsRunningBuildElapsedTime \<and> k = [GetName job, build_id lb, isGood_label (IsGood lb)]
      then Some (float64 (sum_list (map (\<lambda>st. int64_div (stage_Duration st) 1000) (Stages livePipe))))
      else if w = jenkinsRunningBuildPipelineStatus
      then last_value (\<lambda>st. [GetName job, build_id lb, Sprintf_03s (stage_ID st), stage_Name st])
             (\<lambda>st. stage_status_value (stage_Status st)) (Stages livePipe) k
             (metrics s jenkinsRunningBuildPipelineStatus k)
      else if w = jenkinsRunningBuild \<and> k = [GetName job, build_id lb, isGood_label (IsGood lb)]
      then Some 1 else metrics s w k)"
  by (simp add: running_build_def Let_def steps_Cons_if Set_metrics isRunning_value_def called_def
        elapsed_part live_stages_metrics del: steps.simps(2))

lemma failed_tests_flow:
  "length ca = 2 \<Longrightarrow> fst (failed_tests ca r s) = Continue \<longleftrightarrow> r \<noteq> None"
  by (cases r) (simp_all add: failed_tests_def suites_loop_flow)

lemma failed_tests_metrics:
  "length ca = 2 \<Longrightarrow>
   metrics (snd (failed_tests ca (Some r) s)) w k =
     (if w = jenkinsCompletedBuildTestCaseFailureAge
      then last_value (fa_labels ca) (\<lambda>p. float64 (tc_Age (snd p))) (failing r) k
             (metrics s jenkinsCompletedBuildTestCaseFailureAge k)
      else metrics s w k)"
  by (simp add: failed_tests_def suites_loop_metrics failing_def)

lemma completed_pipeline_flow:
  "fst (completed_pipeline job jobname lcb s) = Continue \<longleftrightarrow> GetPipelineRun job (build_id lcb) \<noteq> None"
  by (cases "GetPipelineRun job (build_id lcb)")
     (simp_all add: completed_pipeline_def sets_loop_flow)

lemma completed_pipeline_metrics:
  "w \<noteq> jenkinsCompletedBuildPipelineDurationSeconds \<Longrightarrow>
   metrics (snd (completed_pipeline job jobname lcb s)) w k = metrics s w k"
  by (cases "GetPipelineRun job (build_id lcb)")
     (simp_all add: completed_pipeline_def sets_loop_metrics called_def)

lemma steps_reset_all: "steps reset_all s = (Continue, s\<lparr>metrics := (\<lambda>v. Map.empty)\<rparr>)"
proof -
  have "((((((((((metrics s)(jenkinsRunningBuild := Map.empty))
         (jenkinsRunningBuildElapsedTime := Map.empty))
         (jenkinsRunningBuildPipelineStatus := Map.empty))
         (jenkinsCompletedBuildSuccess := Map.empty))
         (jenkinsCompletedBuildDurationSeconds := Map.empty))
         (jenkinsCompletedBuildTestCount := Map.empty))
         (jenkinsCompletedBuildPipelineDurationSeconds := Map.empty))
         (jenkinsCompletedBuildTestCaseFailureAge := Map.empty))
         (jenkinsCompletedBuildTimestamp := Map.empty)) = (\<lambda>v. Map.empty)"
  proof
    fix v :: family
    show "((((((((((metrics s)(jenkinsRunningBuild := Map.empty))
         (jenkinsRunningBuildElapsedTime := Map.empty))
         (jenkinsRunningBuildPipelineStatus := Map.empty))
         (jenkinsCompletedBuildSuccess := Map.empty))
         (jenkinsCompletedBuildDurationSeconds := Map.empty))
         (jenkinsCompletedBuildTestCount := Map.empty))
         (jenkinsCompletedBuildPipelineDurationSeconds := Map.empty))
         (jenkinsCompletedBuildTestCaseFailureAge := Map.empty))
         (jenkinsCompletedBuildTimestamp := Map.empty)) v = Map.empty"
      by (cases v) simp_all
  qed
  then show ?thesis by (simp add: reset_all_def Reset_def)
qed

lemma process_job_labelled:
  assumes "jobname \<in> set names" and "labelled_by J names s"
  shows "labelled_by J names (snd (process_job J jobname s))"
proof (cases "GetJob J jobname")
  case (Inl e)
  then have "metrics (snd (process_job J jobname s)) = metrics s" by (rule process_job_no_job)
  with assms(2) show ?thesis by (simp add: labelled_by_def)
next
  case (Inr job)
  then have "grows (GetName job) s (snd (process_job J jobname s))" by (rule process_job_grows)
  with assms Inr show ?thesis unfolding labelled_by_def grows_def by blast
qed

lemma jobs_loop_labelled:
  "set js \<subseteq> set names \<Longrightarrow> labelled_by J names s \<Longrightarrow>
   labelled_by J names (snd (steps (map (process_job J) js) s))"
proof (induction js arbitrary: s)
  case Nil
  then show ?case by simp
next
  case (Cons j js)
  have 1: "labelled_by J names (snd (process_job J j s))"
    using Cons.prems by (simp add: process_job_labelled)
  show ?case
  proof (cases "fst (process_job J j s) = Continue")
    case True
    then show ?thesis using Cons.IH [OF _ 1] Cons.prems(1)
      by (simp del: steps.simps(2) add: steps_Cons_if)
  next
    case False
    then show ?thesis using 1 by (simp del: steps.simps(2) add: steps_Cons_if)
  qed
qed

lemma updateMetrics_connected:
  "Init J = None \<Longrightarrow>
   updateMetrics config J s =
     steps (map (process_job J) (Jobs (Jenkins config)))
       (s\<lparr>logged := logged s @ [Debugf ''Connecting to Jenkins API and collecting metrics...''],
         trace := trace s @ [CreateJenkins (URL (Jenkins config))
                        (if User (Jenkins config) \<noteq> []
                         then Some (User (Jenkins config), Password (Jenkins config))
                         else None), Call_Init],
         metrics := (\<lambda>v. Map.empty)\<rparr>)"
  by (simp add: updateMetrics_def steps_append steps_reset_all logf_def called_def)

lemma updateMetrics_labelled:
  assumes "Init J = None"
  shows "labelled_by J (Jobs (Jenkins config)) (snd (updateMetrics config J s))"
  unfolding updateMetrics_connected [OF assms]
  by (rule jobs_loop_labelled) (simp_all add: labelled_by_def)

lemma updateMetrics_well_formed:
  assumes "well_formed s"
  shows "well_formed (snd (updateMetrics config J s))"
proof (cases "Init J")
  case None
  from updateMetrics_labelled [OF this] show ?thesis
    unfolding labelled_by_def well_formed_def by blast
next
  case (Some e)
  then have "metrics (snd (updateMetrics config J s)) = metrics s"
    by (simp add: updateMetrics_def logf_def called_def)
  with assms show ?thesis by (simp add: well_formed_def)
qed

lemma poll_well_formed:
  "well_formed s \<Longrightarrow> well_formed (snd (poll config ticks s))"
proof (induction ticks arbitrary: s)
  case Nil
  then show ?case by simp
next
  case (Cons J ticks)
  obtain fl s' where r: "updateMetrics config J s = (fl, s')" by (cases "updateMetrics config J s")
  have w: "well_formed s'" using updateMetrics_well_formed [OF Cons.prems, of config J] r by simp
  then have w': "well_formed (called (Sleep (UpdateInterval (Jenkins config) * 1000000000)) s')"
    by (simp add: well_formed_def called_def)
  show ?case using r w Cons.IH [OF w'] by (cases fl) simp_all
qed

lemma variableLabels_jobname: "hd (variableLabels v) = ''jobname'' \<and> variableLabels v \<noteq> []"
  by (cases v) simp_all

lemma set_registered: "set registered = UNIV"
proof -
  have "v \<in> set registered" for v by (cases v) (simp_all add: registered_def)
  then show ?thesis by auto
qed

lemma process_job_collect:
  "GetJob J jn = Inr job \<Longrightarrow> GetLastCompletedBuild job = Inr lcb \<Longrightarrow> GetLastBuild job = Inr lb \<Longrightarrow>
   process_job J jn s =
     collect_job job jn lcb lb
       (called (Call_GetLastBuild jn) (called (Call_GetLastCompletedBuild jn) (called (Call_GetJob jn) s)))"
  by (simp add: process_job_def)

lemma process_job_Continue:
  "fst (process_job J jn s) = Continue \<Longrightarrow>
   \<exists>job lcb lb. GetJob J jn = Inr job \<and> GetLastCompletedBuild job = Inr lcb \<and> GetLastBuild job = Inr lb"
  by (auto simp: process_job_def Let_def split: sum.splits)

lemma collect_job_flow:
  "fst (collect_job job jn lcb lb s) = Continue \<longleftrightarrow>
     GetResultSet lcb \<noteq> None \<and> (fst (IsRunning job) \<longrightarrow> GetPipelineRun job (build_id lb) \<noteq> None)
       \<and> GetPipelineRun job (build_id lcb) \<noteq> None"
  by (simp add: collect_job_def Let_def steps_Cons_if test_counts_flow running_build_flow
        failed_tests_flow completed_pipeline_flow del: steps.simps(2))

lemma metrics_called [simp]: "metrics (called c s) = metrics s"
  by (simp add: called_def)

lemma metrics_logf [simp]: "metrics (logf c s) = metrics s"
  by (simp add: logf_def)

lemma running_build_frame:
  assumes "fst (running_build job jn lb s) = Continue"
    and "w \<noteq> jenkinsRunningBuild" "w \<noteq> jenkinsRunningBuildPipelineStatus" "w \<noteq> jenkinsRunningBuildElapsedTime"
  shows "metrics (snd (running_build job jn lb s)) w k = metrics s w k"
proof (cases "fst (IsRunning job)")
  case False
  then show ?thesis using assms by (simp add: running_build_idle)
next
  case True
  with assms(1) obtain lp where "GetPipelineRun job (build_id lb) = Some lp"
    by (auto simp: running_build_flow)
  with True show ?thesis using assms by (simp add: running_build_running)
qed

lemmas collect_simps = collect_job_def Let_def steps_Cons_if test_counts_flow running_build_flow
        failed_tests_flow completed_pipeline_flow Set_metrics test_counts_metrics
        failed_tests_metrics completed_pipeline_metrics

lemma collect_job_success:
  assumes "fst (collect_job job jn lcb lb s) = Continue"
  shows "metrics (snd (collect_job job jn lcb lb s)) jenkinsCompletedBuildSuccess
           [GetName job, build_id lcb] = Some (build_result_value (GetResult lcb))"
proof -
  from assms obtain r where r: "GetResultSet lcb = Some r"
    and run: "fst (IsRunning job) \<longrightarrow> GetPipelineRun job (build_id lb) \<noteq> None"
    and cp: "GetPipelineRun job (build_id lcb) \<noteq> None"
    by (auto simp: collect_job_flow)
  show ?thesis
    using r run cp by (simp add: collect_simps del: steps.simps(2))
qed

lemma collect_job_failure_age:
  assumes "fst (collect_job job jn lcb lb s) = Continue" and r: "GetResultSet lcb = Some r"
  shows "metrics (snd (collect_job job jn lcb lb s)) jenkinsCompletedBuildTestCaseFailureAge k =
           last_value (fa_labels [GetName job, build_id lcb]) (\<lambda>p. float64 (tc_Age (snd p))) (failing r) k
             (metrics s jenkinsCompletedBuildTestCaseFailureAge k)"
proof -
  from assms have run: "fst (IsRunning job) \<longrightarrow> GetPipelineRun job (build_id lb) \<noteq> None"
    and cp: "GetPipelineRun job (build_id lcb) \<noteq> None"
    by (auto simp: collect_job_flow)
  show ?thesis
    using r run cp by (simp add: collect_simps running_build_frame del: steps.simps(2))
qed

lemma collect_job_running:
  assumes "fst (collect_job job jn lcb lb s) = Continue" and run: "fst (IsRunning job)"
    and lp: "GetPipelineRun job (build_id lb) = Some livePipe"
  shows "metrics (snd (collect_job job jn lcb lb s)) w k =
     (if w = jenkinsRunningBuildElapsedTime
      then (if k = [GetName job, build_id lb, isGood_label (IsGood lb)]
            then Some (float64 (sum_list (map (\<lambda>st. int64_div (stage_Duration st) 1000) (Stages livePipe))))
            else metrics s w k)
      else if w = jenkinsRunningBuildPipelineStatus
      then last_value (\<lambda>st. [GetName job, build_id lb, Sprintf_03s (stage_ID st), stage_Name st])
             (\<lambda>st. stage_status_value (stage_Status st)) (Stages livePipe) k
             (metrics s jenkinsRunningBuildPipelineStatus k)
      else if w = jenkinsRunningBuild
      then (if k = [GetName job, build_id lb, isGood_label (IsGood lb)] then Some 1 else metrics s w k)
      else metrics (snd (collect_job job jn lcb lb s)) w k)"
proof -
  from assms obtain r where r: "GetResultSet lcb = Some r"
    and cp: "GetPipelineRun job (build_id lcb) \<noteq> None"
    by (auto simp: collect_job_flow)
  show ?thesis
    using r run lp cp by (simp add: collect_simps running_build_running del: steps.simps(2))
qed

lemma collect_job_idle:
  assumes "fst (collect_job job jn lcb lb s) = Continue" and run: "\<not> fst (IsRunning job)"
  shows "metrics (snd (collect_job job jn lcb lb s)) w k =
     (if w = jenkinsRunningBuildElapsedTime \<or> w = jenkinsRunningBuildPipelineStatus
      then metrics s w k
      else if w = jenkinsRunningBuild
      then (if k = [GetName job, build_id lb, isGood_label (IsGood lb)] then Some 0 else metrics s w k)
      else metrics (snd (collect_job job jn lcb lb s)) w k)"
proof -
  from assms obtain r where r: "GetResultSet lcb = Some r"
    and cp: "GetPipelineRun job (build_id lcb) \<noteq> None"
    by (auto simp: collect_job_flow)
  show ?thesis
    using r run cp by (simp add: collect_simps running_build_idle del: steps.simps(2))
qed

lemmas example_defs = example_os_def example_no_flags_def example_flag_def example_flaky_def
  example_steady_def example_stages_def example_resultset_def
  example_completed_def example_last_def example_job_def example_jenkins_def example_down_def
  example_config_def example_stale_def

lemmas run_defs = updateMetrics_def process_job_def collect_job_def completed_pipeline_def
  failed_tests_def failed_test_case_def running_build_def test_counts_def
  WithLabelValues_Set_def Reset_def reset_all_def logf_def called_def build_id_def
  Itoa_def digits.simps Sprintf_03s_def float64_def round_to_float64_def int64_div_def
  signed_divide_int_def
  isRunning_value_def isGood_label_def stage_status_value_def build_result_value_def
  initial_state_def Let_def

lemma scrapeI:
  "metrics s v lvs = Some x \<Longrightarrow> (Opts_Name v, zip (variableLabels v) lvs, x) \<in> scrape s"
  unfolding scrape_def using set_registered by blast

lemma scrapeE:
  assumes "(name, labels, x) \<in> scrape s"
  obtains v lvs where "name = Opts_Name v" "labels = zip (variableLabels v) lvs" "metrics s v lvs = Some x"
  using assms unfolding scrape_def by blast

lemma scrape_cong: "metrics s = metrics t \<Longrightarrow> scrape s = scrape t"
  by (simp add: scrape_def)

lemma word_sum: "sum_list (map (\<lambda>x. (word_of_int (f x) :: int64)) xs) = word_of_int (sum_list (map f xs))"
  by (induction xs) simp_all

lemma float64_exact:
  "\<bar>sint n\<bar> \<le> 2 ^ 53 \<Longrightarrow> float64 n = real_of_int (sint n)"
  by (simp add: float64_def round_to_float64_def)

lemma float64_of_int:
  "\<bar>S\<bar> \<le> 2 ^ 53 \<Longrightarrow> float64 (word_of_int S) = real_of_int S"
proof -
  assume a: "\<bar>S\<bar> \<le> 2 ^ 53"
  have "(2 :: int) ^ 53 < 2 ^ 63" by simp
  with a have "- (2 ^ 63) \<le> S" "S < 2 ^ 63" by linarith+
  then have "sint (word_of_int S :: int64) = S"
    by (simp add: sint_sbintrunc' signed_take_bit_int_eq_self)
  with a show ?thesis by (simp add: float64_exact)
qed

lemma elapsed_exact:
  assumes "\<bar>\<Sum>st\<leftarrow>stages. sint (stage_Duration st) sdiv 1000\<bar> \<le> 2 ^ 53"
  shows "float64 (sum_list (map (\<lambda>st. int64_div (stage_Duration st) 1000) stages)) =
           real_of_int (\<Sum>st\<leftarrow>stages. sint (stage_Duration st) sdiv 1000)"
proof -
  have "sint (1000 :: int64) = 1000" by simp
  then have "sum_list (map (\<lambda>st. int64_div (stage_Duration st) 1000) stages) =
        word_of_int (\<Sum>st\<leftarrow>stages. sint (stage_Duration st) sdiv 1000)"
    by (simp add: int64_div_def word_sum)
  with assms show ?thesis by (simp add: float64_of_int)
qed

lemma round_to_float64_tie:
  "round_to_float64 9007199254740993 = 9007199254740992"
  by code_simp

lemma in_failing:
  "(su, c) \<in> set (failing r) \<longleftrightarrow>
     su \<in> set (Suites r) \<and> c \<in> set (Cases su) \<and> \<not> tc_Skipped c \<and> tc_Status c \<noteq> ''PASSED''"
  by (auto simp: failing_def)

lemma updateMetrics_previous:
  "Init J = None \<Longrightarrow> updateMetrics config J (s\<lparr>metrics := previous\<rparr>) = updateMetrics config J s"
  by (simp add: updateMetrics_connected)

lemma scrape_jobname:
  assumes "labelled_by J names s" and "(name, labels, x) \<in> scrape s"
  shows "\<exists>jobname\<in>set names. \<exists>job. GetJob J jobname = Inr job \<and> hd labels = (''jobname'', GetName job)"
proof -
  from assms(2) obtain v lvs where v: "labels = zip (variableLabels v) lvs" "metrics s v lvs = Some x"
    by (rule scrapeE)
  with assms(1) have len: "length lvs = length (variableLabels v)"
    and j: "\<exists>jobname\<in>set names. \<exists>job. GetJob J jobname = Inr job \<and> hd lvs = GetName job"
    unfolding labelled_by_def by blast+
  obtain l ls where l: "variableLabels v = l # ls" "l = ''jobname''"
    using variableLabels_jobname [of v] by (cases "variableLabels v") auto
  with len obtain a as where "lvs = a # as" by (cases lvs) auto
  with l v j show ?thesis by auto
qed

lemma family_in_catalogue:
  "(Opts_Name v, variableLabels v) \<in>
       {(''jenkins_running_build'', [''jobname'', ''buildid'', ''isgood'']),
        (''jenkins_running_build_pipeline_status'', [''jobname'', ''buildid'', ''id'', ''stage'']),
        (''jenkins_running_build_elapsed_time'', [''jobname'', ''buildid'', ''isgood'']),
        (''jenkins_build_success'', [''jobname'', ''buildid'']),
        (''jenkins_build_duration_seconds'', [''jobname'', ''buildid'']),
        (''jenkins_build_timestamp'', [''jobname'', ''buildid'']),
        (''jenkins_build_test_count'', [''jobname'', ''buildid'', ''result'']),
        (''jenkins_build_test_case_failure_age'',
           [''jobname'', ''buildid'', ''suite'', ''case'', ''status'', ''failedsince'']),
        (''jenkins_build_pipeline_duration_seconds'', [''jobname'', ''buildid'', ''id'', ''stage''])}"
  by (cases v; simp only: Opts_Name.simps variableLabels.simps; (rule insertI1 | rule insertI2)+)

lemma cycle_prefix:
  assumes "Jobs (Jenkins config) = before @ jobname # after"
    and "updateMetrics (config\<lparr>Jenkins := (Jenkins config)\<lparr>Jobs := before\<rparr>\<rparr>) J s = (Continue, s')"
  shows "updateMetrics config J s =
           (case process_job J jobname s' of
              (Continue, t) \<Rightarrow> steps (map (process_job J) after) t
            | (fl, t) \<Rightarrow> (fl, t))"
proof -
  have i: "Init J = None"
    using assms(2) by (cases "Init J") (simp_all add: updateMetrics_def)
  let ?s0 = "s\<lparr>logged := logged s @ [Debugf ''Connecting to Jenkins API and collecting metrics...''],
         trace := trace s @ [CreateJenkins (URL (Jenkins config))
                        (if User (Jenkins config) \<noteq> []
                         then Some (User (Jenkins config), Password (Jenkins config))
                         else None), Call_Init],
         metrics := (\<lambda>v. Map.empty)\<rparr>"
  have "updateMetrics (config\<lparr>Jenkins := (Jenkins config)\<lparr>Jobs := before\<rparr>\<rparr>) J s =
          steps (map (process_job J) before) ?s0"
    using updateMetrics_connected [OF i, of "config\<lparr>Jenkins := (Jenkins config)\<lparr>Jobs := before\<rparr>\<rparr>" s]
    by simp
  with assms(2) have 1: "steps (map (process_job J) before) ?s0 = (Continue, s')"
    by simp
  have "updateMetrics config J s = steps (map (process_job J) before @ map (process_job J) (jobname # after)) ?s0"
    using updateMetrics_connected [OF i, of config s] by (simp add: assms(1))
  also have "\<dots> = steps (map (process_job J) (jobname # after)) s'"
    by (simp only: steps_append 1 prod.case flow.case)
  finally show ?thesis
    by simp
qed

lemma live_stages_GetName:
  "GetName job' = GetName job \<Longrightarrow>
   live_stages job' lb stages e s = live_stages job lb stages e s"
  by (induction stages arbitrary: e s) (auto simp: Let_def split: prod.splits flow.splits)

lemma running_build_IsRunning_err:
  "running_build (job\<lparr>IsRunning := (fst (IsRunning job), err)\<rparr>) jobname lb =
   running_build job jobname lb"
proof
  fix s
  have l: "live_stages (job\<lparr>IsRunning := x\<rparr>) lb stages e t =
      live_stages job lb stages e t" for x stages e t
    by (rule live_stages_GetName) simp
  show "running_build (job\<lparr>IsRunning := (fst (IsRunning job), err)\<rparr>) jobname lb s =
      running_build job jobname lb s"
    by (cases "fst (IsRunning job)"; cases "GetPipelineRun job (build_id lb)")
       (simp_all add: running_build_def Let_def isRunning_value_def elapsed_part l WithLabelValues_Set_def)
qed

lemma completed_pipeline_IsRunning_err:
  "completed_pipeline (job\<lparr>IsRunning := (fst (IsRunning job), err)\<rparr>) jobname lcb =
   completed_pipeline job jobname lcb"
  by (rule ext) (simp add: completed_pipeline_def Let_def split: option.splits)

lemma collect_job_IsRunning_err:
  "collect_job (job\<lparr>IsRunning := (fst (IsRunning job), err)\<rparr>) jobname lcb lb s =
   collect_job job jobname lcb lb s"
  by (simp add: collect_job_def Let_def running_build_IsRunning_err completed_pipeline_IsRunning_err)

lemma process_job_IsRunning_err:
  assumes "GetJob J jobname = Inr job"
    and "GetJob J' jobname = Inr (job\<lparr>IsRunning := (fst (IsRunning job), err)\<rparr>)"
  shows "process_job J' jobname s = process_job J jobname s"
  using assms by (simp add: process_job_def Let_def collect_job_IsRunning_err split: sum.splits)

section \<open>Start-up\<close>

text \<open>
  What \<open>init\<close> leaves when the file is there and parses: the decoded configuration,
  with an \<open>UpdateInterval\<close> of 1800 in place of a decoded 0, which is also what a
  decoder leaves that does not touch the field of \<open>loadConfig\<close>'s fresh structure
  (the interval is not set in the file), and any other decoded value as it is.
\<close>

theorem init_started:
  assumes "Stat os (configFileFlag cl) = None"
    and "DecodeFile os (configFileFlag cl) zero_Config = (None, decoded)"
  shows "\<exists>config level. init os cl = Started config level [Debugf ''Configuration: %+v'']
           \<and> UpdateInterval (Jenkins config) =
               (if 0 < UpdateInterval (Jenkins decoded) then UpdateInterval (Jenkins decoded) else 1800)
           \<and> (UpdateInterval (Jenkins decoded) = UpdateInterval (Jenkins zero_Config)
                \<longrightarrow> UpdateInterval (Jenkins config) = 1800)
           \<and> URL (Jenkins config) = URL (Jenkins decoded)
           \<and> User (Jenkins config) = User (Jenkins decoded)
           \<and> Password (Jenkins config) = Password (Jenkins decoded)
           \<and> Jobs (Jenkins config) = Jobs (Jenkins decoded)"
  using assms
  by (simp add: init_def loadConfig_def zero_Config_def word_gt_0)

text \<open>
  The file \<open>./config.toml\<close> sets no interval, and the process starts with an interval
  of 1800 seconds and the job of the file; the file \<open>./minute.toml\<close> sets 60 seconds,
  and the process starts with 60.
\<close>

theorem init_started_example:
  "Stat example_os (configFileFlag example_no_flags) = None
   \<and> (\<exists>config level. init example_os example_no_flags = Started config level [Debugf ''Configuration: %+v'']
          \<and> UpdateInterval (Jenkins config) = 1800 \<and> Jobs (Jenkins config) = [''app''])
   \<and> Stat example_os (configFileFlag (example_flag ''./minute.toml'')) = None
   \<and> (\<exists>config level. init example_os (example_flag ''./minute.toml'') =
          Started config level [Debugf ''Configuration: %+v'']
          \<and> UpdateInterval (Jenkins config) = 60 \<and> Jobs (Jenkins config) = [''app''])"
  using init_started [of example_os example_no_flags
      "\<lparr>Jenkins = \<lparr>URL = ''http://jenkins'', User = [], Password = [], Jobs = [''app''], UpdateInterval = 0\<rparr>\<rparr>"]
    init_started [of example_os "example_flag ''./minute.toml''"
      "\<lparr>Jenkins = \<lparr>URL = ''http://jenkins'', User = [], Password = [], Jobs = [''app''], UpdateInterval = 60\<rparr>\<rparr>"]
  by (auto simp: example_defs configFileFlag_def zero_Config_def decoded_interval_def)

text \<open>
  C4. After configuration loading, an update interval that is unset or not positive
  should give a poll interval of 1800 seconds, and a positive one should be kept. The
  code does so for an interval that is unset, zero or positive (\<open>init_started\<close>), and
  misses the negative one: the field is a \<open>uint64\<close>, so the comparison \<open>\<le> 0\<close> of
  \<open>init\<close> holds for 0 only. With \<open>updateinterval = -5\<close> in the file the decoder
  stores 18446744073709551611, \<open>init\<close> keeps it, and the duration that the polling
  loop sleeps after a cycle, \<open>time.Duration(UpdateInterval) * time.Second\<close>, is
  -5000000000 nanoseconds.
\<close>

theorem negative_update_interval_kept:
  "decoded_interval (- 5) = 18446744073709551611
   \<and> init example_os (example_flag ''./negative.toml'') =
       Started \<lparr>Jenkins = \<lparr>URL = ''http://jenkins'', User = [], Password = [], Jobs = [''app''],
                            UpdateInterval = 18446744073709551611\<rparr>\<rparr>
         InfoLevel [Debugf ''Configuration: %+v'']
   \<and> UpdateInterval (Jenkins \<lparr>Jenkins = \<lparr>URL = ''http://jenkins'', User = [], Password = [],
                            Jobs = [''app''], UpdateInterval = 18446744073709551611\<rparr>\<rparr>) \<noteq> 1800
   \<and> last (trace (snd (poll \<lparr>Jenkins = \<lparr>URL = ''http://jenkins'', User = [], Password = [],
                                           Jobs = [''app''], UpdateInterval = 18446744073709551611\<rparr>\<rparr>
                              [example_down] initial_state))) =
       Sleep (18446744073709551611 * 1000000000)
   \<and> sint (18446744073709551611 * 1000000000 :: int64) = - 5000000000"
proof -
  have 1: "decoded_interval (- 5) = 18446744073709551611"
    by (simp add: decoded_interval_def)
  have 2: "init example_os (example_flag ''./negative.toml'') =
       Started \<lparr>Jenkins = \<lparr>URL = ''http://jenkins'', User = [], Password = [], Jobs = [''app''],
                            UpdateInterval = 18446744073709551611\<rparr>\<rparr>
         InfoLevel [Debugf ''Configuration: %+v'']"
    by (simp add: example_os_def example_flag_def 1 init_def loadConfig_def zero_Config_def
        configFileFlag_def debugFlag_def)
  have 3: "last (trace (snd (poll \<lparr>Jenkins = \<lparr>URL = ''http://jenkins'', User = [], Password = [],
                                           Jobs = [''app''], UpdateInterval = 18446744073709551611\<rparr>\<rparr>
                              [example_down] initial_state))) =
       Sleep (18446744073709551611 * 1000000000)"
    by (simp add: example_down_def example_jenkins_def updateMetrics_def logf_def called_def
        initial_state_def)
  have 4: "sint (18446744073709551611 * 1000000000 :: int64) = - 5000000000"
    by simp
  from 1 2 3 4 show ?thesis by simp
qed

text \<open>
  C7, as stated, fails: without a \<open>-config\<close> flag on the command line, and with a
  valid \<open>./config.toml\<close> in the working directory, the process starts.
\<close>

theorem config_flag_required_counterexample:
  "arg_config example_no_flags = None
   \<and> init example_os example_no_flags =
       Started \<lparr>Jenkins = \<lparr>URL = ''http://jenkins'', User = [], Password = [], Jobs = [''app''],
                            UpdateInterval = 1800\<rparr>\<rparr> InfoLevel [Debugf ''Configuration: %+v'']"
  by (simp add: example_defs init_def loadConfig_def zero_Config_def configFileFlag_def debugFlag_def)

text \<open>
  C7, amended. The \<open>-config\<close> flag is optional: without it the path is
  \<open>./config.toml\<close>, with it the path given. The process exits fatally exactly when
  \<open>os.Stat\<close> fails on that path (the file is missing) or the file fails to parse,
  with the log entry of each case.
\<close>

theorem init_fatal_iff:
  "(arg_config cl = None \<longrightarrow> configFileFlag cl = ''./config.toml'')
   \<and> (\<forall>path. arg_config cl = Some path \<longrightarrow> configFileFlag cl = path)
   \<and> ((\<exists>entry. init os cl = Exit_fatal entry) \<longleftrightarrow>
        (Stat os (configFileFlag cl) \<noteq> None
         \<or> fst (DecodeFile os (configFileFlag cl) zero_Config) \<noteq> None))
   \<and> (\<forall>err. Stat os (configFileFlag cl) = Some err \<longrightarrow>
         init os cl = Exit_fatal (Fatal (''Please provide a config file with `-config <yourconfig>` '' @
                             ''or just create `config.toml` in this directory'')))
   \<and> (\<forall>err. Stat os (configFileFlag cl) = None \<and> fst (DecodeFile os (configFileFlag cl) zero_Config) = Some err
         \<longrightarrow> init os cl = Exit_fatal (Fatalf ''Unable to parse configuration file: %s'' err))"
  by (auto simp: init_def loadConfig_def configFileFlag_def split: option.splits prod.splits)

text \<open>
  C7, witness: with \<open>-config=/go/etc/config.toml\<close> and no such file the process exits
  fatally, and so it does with \<open>-config=./broken.toml\<close>, a file that does not parse;
  without the flag, and with \<open>./config.toml\<close> there, it starts.
\<close>

theorem init_fatal_iff_witness:
  "configFileFlag (example_flag ''/go/etc/config.toml'') = ''/go/etc/config.toml''
   \<and> Stat example_os ''/go/etc/config.toml'' = Some ''no such file or directory''
   \<and> init example_os (example_flag ''/go/etc/config.toml'') =
        Exit_fatal (Fatal (''Please provide a config file with `-config <yourconfig>` '' @
                           ''or just create `config.toml` in this directory''))
   \<and> Stat example_os ''./broken.toml'' = None
   \<and> fst (DecodeFile example_os ''./broken.toml'' zero_Config) = Some ''expected key separator''
   \<and> init example_os (example_flag ''./broken.toml'') =
        Exit_fatal (Fatalf ''Unable to parse configuration file: %s'' ''expected key separator'')
   \<and> configFileFlag example_no_flags = ''./config.toml''
   \<and> \<not> (\<exists>entry. init example_os example_no_flags = Exit_fatal entry)"
  using init_fatal_iff [of "example_flag ''/go/etc/config.toml''" example_os]
    init_fatal_iff [of "example_flag ''./broken.toml''" example_os]
    init_fatal_iff [of example_no_flags example_os]
  by (simp add: example_defs)

section \<open>The polling cycle\<close>

text \<open>
  C1. When \<open>Init\<close> succeeds, the cycle does not depend on the series that were there
  before it: its outcome and its state are the same whatever the nine vectors held, since
  all nine are reset before the first job is looked at. Every sample of a scrape after
  the cycle, however the cycle ended, carries as its \<open>jobname\<close> label the name of a
  job that the client returned for one of the configured job names; when the client
  names every job as it was asked for, this is one of the configured names. So no series
  of a job outside the configured list is left.
\<close>

theorem reset_before_populate:
  assumes "Init jenkinsCli = None"
  shows "(\<forall>previous. updateMetrics config jenkinsCli (s\<lparr>metrics := previous\<rparr>) =
                     updateMetrics config jenkinsCli s)
       \<and> (\<forall>(name, labels, x)\<in>scrape (snd (updateMetrics config jenkinsCli s)).
            \<exists>jobname\<in>set (Jobs (Jenkins config)). \<exists>job.
               GetJob jenkinsCli jobname = Inr job \<and> hd labels = (''jobname'', GetName job))
       \<and> ((\<forall>jobname job. GetJob jenkinsCli jobname = Inr job \<longrightarrow> GetName job = jobname) \<longrightarrow>
            (\<forall>(name, labels, x)\<in>scrape (snd (updateMetrics config jenkinsCli s)).
               \<exists>jobname\<in>set (Jobs (Jenkins config)). hd labels = (''jobname'', jobname)))"
proof -
  let ?S = "snd (updateMetrics config jenkinsCli s)"
  have key: "\<exists>jobname\<in>set (Jobs (Jenkins config)). \<exists>job.
               GetJob jenkinsCli jobname = Inr job \<and> hd labels = (''jobname'', GetName job)"
    if "(name, labels, x) \<in> scrape ?S" for name labels x
    using updateMetrics_labelled [OF assms] that by (rule scrape_jobname)
  have a: "\<forall>previous. updateMetrics config jenkinsCli (s\<lparr>metrics := previous\<rparr>) =
                     updateMetrics config jenkinsCli s"
    using assms by (simp add: updateMetrics_previous)
  have b: "\<forall>(name, labels, x)\<in>scrape ?S.
            \<exists>jobname\<in>set (Jobs (Jenkins config)). \<exists>job.
               GetJob jenkinsCli jobname = Inr job \<and> hd labels = (''jobname'', GetName job)"
    by clarify (rule key, assumption)
  have c: "\<forall>(name, labels, x)\<in>scrape ?S.
               \<exists>jobname\<in>set (Jobs (Jenkins config)). hd labels = (''jobname'', jobname)"
    if f: "\<forall>jobname job. GetJob jenkinsCli jobname = Inr job \<longrightarrow> GetName job = jobname"
  proof -
    have "\<exists>jobname\<in>set (Jobs (Jenkins config)). hd labels = (''jobname'', jobname)"
      if "(name, labels, x) \<in> scrape ?S" for name labels x
    proof -
      from key [OF that] obtain jobname job where j: "jobname \<in> set (Jobs (Jenkins config))"
        "GetJob jenkinsCli jobname = Inr job" "hd labels = (''jobname'', GetName job)"
        by blast
      with f have "GetName job = jobname" by blast
      with j show ?thesis by auto
    qed
    then show ?thesis by clarify
  qed
  show ?thesis by (rule conjI [OF a conjI [OF b impI [OF c]]])
qed

text \<open>
  C1, witness: the series of the job \<open>old\<close>, left by an earlier cycle, is gone after a
  cycle over the job \<open>app\<close>, and the series of \<open>app\<close> is there; the cycle ends as
  it does from the initial state.
\<close>

theorem reset_before_populate_witness:
  "Init example_jenkins = None
   \<and> (''jenkins_build_success'', [(''jobname'', ''old''), (''buildid'', ''3'')], 1) \<in> scrape example_stale
   \<and> (''jenkins_build_success'', [(''jobname'', ''old''), (''buildid'', ''3'')], 1)
        \<notin> scrape (snd (updateMetrics (example_config [''app'']) example_jenkins example_stale))
   \<and> (''jenkins_build_success'', [(''jobname'', ''app''), (''buildid'', ''7'')], 0)
        \<in> scrape (snd (updateMetrics (example_config [''app'']) example_jenkins example_stale))
   \<and> updateMetrics (example_config [''app'']) example_jenkins example_stale =
       updateMetrics (example_config [''app'']) example_jenkins initial_state"
proof -
  let ?cycle = "updateMetrics (example_config [''app'']) example_jenkins"
  let ?old = "(''jenkins_build_success'', [(''jobname'', ''old''), (''buildid'', ''3'')], 1 :: real)"
  have 1: "Init example_jenkins = None"
    by (simp add: example_defs)
  note T = reset_before_populate [OF 1, of "example_config [''app'']" initial_state]
  have eq: "?cycle example_stale = ?cycle initial_state"
    using conjunct1 [OF T] by (simp add: example_stale_def)
  have 2: "?old \<in> scrape example_stale"
    using scrapeI [of example_stale jenkinsCompletedBuildSuccess "[''old'', ''3'']" 1]
    by (simp add: example_stale_def)
  have 3: "(''jenkins_build_success'', [(''jobname'', ''app''), (''buildid'', ''7'')], 0)
        \<in> scrape (snd (?cycle initial_state))"
    using scrapeI [of "snd (?cycle initial_state)" jenkinsCompletedBuildSuccess "[''app'', ''7'']" 0]
    by (simp add: example_defs run_defs)
  have 4: "GetJob example_jenkins ''app'' = Inr job \<Longrightarrow> GetName job = ''app''" for job
    by (auto simp: example_defs)
  have 5: "?old \<notin> scrape (snd (?cycle initial_state))"
  proof
    assume "?old \<in> scrape (snd (?cycle initial_state))"
    from bspec [OF conjunct1 [OF conjunct2 [OF T]] this]
    obtain job where "GetJob example_jenkins ''app'' = Inr job" "GetName job = ''old''"
      by (auto simp: example_config_def)
    with 4 show False by simp
  qed
  show ?thesis
    unfolding eq using 1 2 3 5 by simp
qed

text \<open>
  C8. When \<open>Init\<close> returns an error, \<open>updateMetrics\<close> returns with every vector as it
  was: no series is removed, added or changed, and a scrape shows what it showed before.
\<close>

theorem connection_failure_keeps_snapshot:
  assumes "Init jenkinsCli = Some err"
  shows "fst (updateMetrics config jenkinsCli s) = Returned
         \<and> metrics (snd (updateMetrics config jenkinsCli s)) = metrics s
         \<and> scrape (snd (updateMetrics config jenkinsCli s)) = scrape s"
  using assms by (simp add: updateMetrics_def logf_def called_def scrape_def)

text \<open>
  C8, witness: the server cannot be reached, and the series of the job \<open>old\<close> from the
  earlier cycle is still there.
\<close>

theorem connection_failure_keeps_snapshot_witness:
  "Init example_down = Some ''connection refused''
   \<and> metrics example_stale jenkinsCompletedBuildSuccess [''old'', ''3''] = Some 1
   \<and> fst (updateMetrics (example_config [''app'']) example_down example_stale) = Returned
   \<and> metrics (snd (updateMetrics (example_config [''app'']) example_down example_stale))
        jenkinsCompletedBuildSuccess [''old'', ''3''] = Some 1
   \<and> scrape (snd (updateMetrics (example_config [''app'']) example_down example_stale)) = scrape example_stale"
  using connection_failure_keeps_snapshot [of example_down "''connection refused''" "example_config [''app'']" example_stale]
  by (simp add: example_defs)

text \<open>
  C5, as stated, fails: \<open>job.IsRunning()\<close> returns an error for the job \<open>flaky\<close>,
  a connection failure, and the cycle runs to its end; no error entry is logged, and the
  series of the job are set, those after the failing call as well.
\<close>

theorem upstream_error_discarded_counterexample:
  "GetJob example_jenkins ''flaky'' = Inr example_flaky
   \<and> IsRunning example_flaky = (False, Some ''connection refused'')
   \<and> fst (updateMetrics (example_config [''flaky'']) example_jenkins initial_state) = Continue
   \<and> logged (snd (updateMetrics (example_config [''flaky'']) example_jenkins initial_state)) =
        [Debugf ''Connecting to Jenkins API and collecting metrics...'',
         Debugf ''Finished collecting metrics for job: %s'']
   \<and> trace (snd (updateMetrics (example_config [''flaky'']) example_jenkins initial_state)) =
        [CreateJenkins ''http://jenkins'' None, Call_Init, Call_GetJob ''flaky'',
         Call_GetLastCompletedBuild ''flaky'', Call_GetLastBuild ''flaky'', Call_GetResultSet ''flaky'',
         Call_IsRunning ''flaky'', Call_GetPipelineRun ''flaky'' ''7'']
   \<and> metrics (snd (updateMetrics (example_config [''flaky'']) example_jenkins initial_state))
        jenkinsRunningBuild [''flaky'', ''8'', ''0''] = Some 0
   \<and> metrics (snd (updateMetrics (example_config [''flaky'']) example_jenkins initial_state))
        jenkinsCompletedBuildSuccess [''flaky'', ''7''] = Some 0"
  by (simp add: example_defs run_defs)

text \<open>
  C5, amended. Each of the four errors that \<open>updateMetrics\<close> checks ends the cycle at
  once:
  \<^item> when \<open>Init\<close> fails, the cycle returns with one error entry logged, the trace
    ending with the one \<open>Init\<close> call, and nothing else changed;
  \<^item> when the jobs before \<open>jobname\<close> have been processed to the end, leaving the state
    \<open>s'\<close>, and \<open>GetJob\<close>, \<open>GetLastCompletedBuild\<close> or \<open>GetLastBuild\<close> fails for
    \<open>jobname\<close>, the cycle returns in the state \<open>s'\<close> with one error entry logged and
    the trace ending with the calls made for \<open>jobname\<close>, the failing one last and once:
    no vector is touched, no call is repeated, and the jobs after \<open>jobname\<close> are not
    looked at;
  \<^item> after a cycle that returned early, the polling loop sleeps the configured interval,
    as after any other cycle, and goes on with the next tick.

  The error that \<open>job.IsRunning()\<close> returns is discarded: the processing of a job is
  the same whatever that error is, and whether there is one or not.
\<close>

theorem checked_errors_logged_and_abandoned:
  "(Init jenkinsCli = Some err \<longrightarrow>
      updateMetrics config jenkinsCli s =
        (Returned,
         s\<lparr>logged := logged s @ [Debugf ''Connecting to Jenkins API and collecting metrics...'',
                                  Errorf ''Unable to connect to Jenkins'' err],
           trace := trace s @ [CreateJenkins (URL (Jenkins config))
                                 (if User (Jenkins config) \<noteq> []
                                  then Some (User (Jenkins config), Password (Jenkins config))
                                  else None),
                               Call_Init]\<rparr>))
   \<and> (Jobs (Jenkins config) = before @ jobname # after
        \<and> updateMetrics (config\<lparr>Jenkins := (Jenkins config)\<lparr>Jobs := before\<rparr>\<rparr>) jenkinsCli s = (Continue, s')
      \<longrightarrow>
        (GetJob jenkinsCli jobname = Inl err \<longrightarrow>
           updateMetrics config jenkinsCli s =
             (Returned,
              s'\<lparr>logged := logged s' @ [Errorf ''Job Does Not Exist'' err],
                 trace := trace s' @ [Call_GetJob jobname]\<rparr>))
        \<and> (GetJob jenkinsCli jobname = Inr job \<and> GetLastCompletedBuild job = Inl err \<longrightarrow>
           updateMetrics config jenkinsCli s =
             (Returned,
              s'\<lparr>logged := logged s' @
                   [Errorf (''Unable to collect metrics for job: '' @ jobname @
                            '' - unable to get Last Completed Build'') err],
                 trace := trace s' @ [Call_GetJob jobname, Call_GetLastCompletedBuild jobname]\<rparr>))
        \<and> (GetJob jenkinsCli jobname = Inr job \<and> GetLastCompletedBuild job = Inr lastCompletedBuild
            \<and> GetLastBuild job = Inl err \<longrightarrow>
           updateMetrics config jenkinsCli s =
             (Returned,
              s'\<lparr>logged := logged s' @
                   [Errorf (''Unable to collect metrics for job: '' @ jobname @
                            '' - unable to get Last Build'') err],
                 trace := trace s' @ [Call_GetJob jobname, Call_GetLastCompletedBuild jobname,
                                      Call_GetLastBuild jobname]\<rparr>)))
   \<and> (fst (updateMetrics config jenkinsCli s) = Returned \<longrightarrow>
        poll config (jenkinsCli # ticks) s =
          poll config ticks
            (called (Sleep (UpdateInterval (Jenkins config) * 1000000000))
               (snd (updateMetrics config jenkinsCli s))))
   \<and> (GetJob jenkinsCli jobname = Inr job
        \<and> GetJob jenkinsCli' jobname = Inr (job\<lparr>IsRunning := (fst (IsRunning job), err')\<rparr>) \<longrightarrow>
        process_job jenkinsCli' jobname s = process_job jenkinsCli jobname s)"
proof -
  have a: "updateMetrics config jenkinsCli s =
        (Returned,
         s\<lparr>logged := logged s @ [Debugf ''Connecting to Jenkins API and collecting metrics...'',
                                  Errorf ''Unable to connect to Jenkins'' err],
           trace := trace s @ [CreateJenkins (URL (Jenkins config))
                                 (if User (Jenkins config) \<noteq> []
                                  then Some (User (Jenkins config), Password (Jenkins config))
                                  else None),
                               Call_Init]\<rparr>)"
    if "Init jenkinsCli = Some err"
    using that by (simp add: updateMetrics_def logf_def called_def)
  have b: "(GetJob jenkinsCli jobname = Inl err \<longrightarrow>
           updateMetrics config jenkinsCli s =
             (Returned,
              s'\<lparr>logged := logged s' @ [Errorf ''Job Does Not Exist'' err],
                 trace := trace s' @ [Call_GetJob jobname]\<rparr>))
        \<and> (GetJob jenkinsCli jobname = Inr job \<and> GetLastCompletedBuild job = Inl err \<longrightarrow>
           updateMetrics config jenkinsCli s =
             (Returned,
              s'\<lparr>logged := logged s' @
                   [Errorf (''Unable to collect metrics for job: '' @ jobname @
                            '' - unable to get Last Completed Build'') err],
                 trace := trace s' @ [Call_GetJob jobname, Call_GetLastCompletedBuild jobname]\<rparr>))
        \<and> (GetJob jenkinsCli jobname = Inr job \<and> GetLastCompletedBuild job = Inr lastCompletedBuild
            \<and> GetLastBuild job = Inl err \<longrightarrow>
           updateMetrics config jenkinsCli s =
             (Returned,
              s'\<lparr>logged := logged s' @
                   [Errorf (''Unable to collect metrics for job: '' @ jobname @
                            '' - unable to get Last Build'') err],
                 trace := trace s' @ [Call_GetJob jobname, Call_GetLastCompletedBuild jobname,
                                      Call_GetLastBuild jobname]\<rparr>))"
    if "Jobs (Jenkins config) = before @ jobname # after
        \<and> updateMetrics (config\<lparr>Jenkins := (Jenkins config)\<lparr>Jobs := before\<rparr>\<rparr>) jenkinsCli s = (Continue, s')"
  proof -
    have p: "updateMetrics config jenkinsCli s =
           (case process_job jenkinsCli jobname s' of
              (Continue, t) \<Rightarrow> steps (map (process_job jenkinsCli) after) t
            | (fl, t) \<Rightarrow> (fl, t))"
      by (rule cycle_prefix [OF conjunct1 [OF that] conjunct2 [OF that]])
    show ?thesis
      unfolding p by (simp add: process_job_def logf_def called_def)
  qed
  have c: "poll config (jenkinsCli # ticks) s =
          poll config ticks
            (called (Sleep (UpdateInterval (Jenkins config) * 1000000000))
               (snd (updateMetrics config jenkinsCli s)))"
    if "fst (updateMetrics config jenkinsCli s) = Returned"
    using that by (cases "updateMetrics config jenkinsCli s") simp
  have d: "process_job jenkinsCli' jobname s = process_job jenkinsCli jobname s"
    if "GetJob jenkinsCli jobname = Inr job
        \<and> GetJob jenkinsCli' jobname = Inr (job\<lparr>IsRunning := (fst (IsRunning job), err')\<rparr>)"
    by (rule process_job_IsRunning_err [OF conjunct1 [OF that] conjunct2 [OF that]])
  show ?thesis
    by (rule conjI [OF impI [OF a] conjI [OF impI [OF b] conjI [OF impI [OF c] impI [OF d]]]])
qed

text \<open>
  C5, witness: the server that cannot be reached; a job list whose second job does not
  exist, with a third job behind it; a job without a completed build; a job whose last
  build cannot be fetched. Each cycle returns early with the vectors as the jobs before
  left them, the error logged last, and the sleep of 1800 seconds follows. The job
  \<open>flaky\<close> is processed alike with and without the error of \<open>IsRunning\<close>.
\<close>

theorem checked_errors_logged_and_abandoned_witness:
  "fst (updateMetrics (example_config [''app'']) example_down example_stale) = Returned
   \<and> metrics (snd (updateMetrics (example_config [''app'']) example_down example_stale)) = metrics example_stale
   \<and> logged (snd (updateMetrics (example_config [''app'']) example_down example_stale)) =
        [Debugf ''Connecting to Jenkins API and collecting metrics...'',
         Errorf ''Unable to connect to Jenkins'' ''connection refused'']
   \<and> trace (snd (updateMetrics (example_config [''app'']) example_down example_stale)) =
        [CreateJenkins ''http://jenkins'' None, Call_Init]
   \<and> fst (updateMetrics (example_config [''app'', ''gone'', ''app'']) example_jenkins initial_state) = Returned
   \<and> metrics (snd (updateMetrics (example_config [''app'', ''gone'', ''app'']) example_jenkins initial_state)) =
       metrics (snd (updateMetrics (example_config [''app'']) example_jenkins initial_state))
   \<and> last (logged (snd (updateMetrics (example_config [''app'', ''gone'', ''app'']) example_jenkins initial_state))) =
       Errorf ''Job Does Not Exist'' ''404''
   \<and> last (trace (snd (updateMetrics (example_config [''app'', ''gone'', ''app'']) example_jenkins initial_state))) =
       Call_GetJob ''gone''
   \<and> fst (updateMetrics (example_config [''app'', ''fresh'']) example_jenkins initial_state) = Returned
   \<and> metrics (snd (updateMetrics (example_config [''app'', ''fresh'']) example_jenkins initial_state)) =
       metrics (snd (updateMetrics (example_config [''app'']) example_jenkins initial_state))
   \<and> last (logged (snd (updateMetrics (example_config [''app'', ''fresh'']) example_jenkins initial_state))) =
       Errorf ''Unable to collect metrics for job: fresh - unable to get Last Completed Build'' ''404''
   \<and> fst (updateMetrics (example_config [''app'', ''broken'']) example_jenkins initial_state) = Returned
   \<and> metrics (snd (updateMetrics (example_config [''app'', ''broken'']) example_jenkins initial_state)) =
       metrics (snd (updateMetrics (example_config [''app'']) example_jenkins initial_state))
   \<and> last (logged (snd (updateMetrics (example_config [''app'', ''broken'']) example_jenkins initial_state))) =
       Errorf ''Unable to collect metrics for job: broken - unable to get Last Build'' ''timeout''
   \<and> last (trace (snd (poll (example_config [''app'', ''broken'']) [example_jenkins] initial_state))) =
       Sleep 1800000000000
   \<and> GetJob example_jenkins ''flaky'' = Inr example_flaky
   \<and> GetJob example_steady ''flaky'' = Inr (example_flaky\<lparr>IsRunning := (False, None)\<rparr>)
   \<and> process_job example_steady ''flaky'' initial_state = process_job example_jenkins ''flaky'' initial_state"
proof -
  let ?J = example_jenkins
  let ?s1 = "snd (updateMetrics (example_config [''app'']) ?J initial_state)"
  have "fst (updateMetrics (example_config [''app'']) ?J initial_state) = Continue"
    by (simp add: example_defs run_defs)
  then have ok: "updateMetrics (example_config [''app'']) ?J initial_state = (Continue, ?s1)"
    by (simp add: prod_eq_iff)
  have cfg: "(example_config jobs)\<lparr>Jenkins := (Jenkins (example_config jobs))\<lparr>Jobs := [''app'']\<rparr>\<rparr> =
      example_config [''app'']" for jobs
    by (simp add: example_config_def)
  have jobs: "Jobs (Jenkins (example_config jobs)) = jobs" for jobs
    by (simp add: example_config_def)
  have 1: "Init example_down = Some ''connection refused''"
    by (simp add: example_defs)
  have 2: "GetJob ?J ''gone'' = Inl ''404''"
    by (simp add: example_defs)
  have 3: "GetJob ?J ''fresh'' = Inr (example_job\<lparr>GetLastCompletedBuild := Inl ''404''\<rparr>)
      \<and> GetLastCompletedBuild (example_job\<lparr>GetLastCompletedBuild := Inl ''404''\<rparr>) = Inl ''404''"
    by (simp add: example_defs)
  have 4: "GetJob ?J ''broken'' = Inr (example_job\<lparr>GetLastBuild := Inl ''timeout''\<rparr>)
      \<and> GetLastCompletedBuild (example_job\<lparr>GetLastBuild := Inl ''timeout''\<rparr>) = Inr example_completed
      \<and> GetLastBuild (example_job\<lparr>GetLastBuild := Inl ''timeout''\<rparr>) = Inl ''timeout''"
    by (simp add: example_defs)
  note T = checked_errors_logged_and_abandoned
  have a: "updateMetrics (example_config [''app'']) example_down example_stale =
        (Returned,
         example_stale\<lparr>logged := logged example_stale @ [Debugf ''Connecting to Jenkins API and collecting metrics...'',
                                  Errorf ''Unable to connect to Jenkins'' ''connection refused''],
           trace := trace example_stale @ [CreateJenkins ''http://jenkins'' None, Call_Init]\<rparr>)"
    using conjunct1 [OF T [where jenkinsCli = example_down and err = "''connection refused''"
          and config = "example_config [''app'']" and s = example_stale]] 1
    by (simp add: example_config_def)
  have b: "updateMetrics (example_config [''app'', ''gone'', ''app'']) ?J initial_state =
             (Returned,
              ?s1\<lparr>logged := logged ?s1 @ [Errorf ''Job Does Not Exist'' ''404''],
                 trace := trace ?s1 @ [Call_GetJob ''gone'']\<rparr>)"
    using conjunct1 [OF conjunct2 [OF T [where jenkinsCli = ?J and err = "''404''"
          and config = "example_config [''app'', ''gone'', ''app'']" and s = initial_state
          and before = "[''app'']" and jobname = "''gone''" and after = "[''app'']" and s' = ?s1]]] 2 ok
    by (simp add: cfg jobs)
  have c: "updateMetrics (example_config [''app'', ''fresh'']) ?J initial_state =
             (Returned,
              ?s1\<lparr>logged := logged ?s1 @
                   [Errorf (''Unable to collect metrics for job: '' @ ''fresh'' @
                            '' - unable to get Last Completed Build'') ''404''],
                 trace := trace ?s1 @ [Call_GetJob ''fresh'', Call_GetLastCompletedBuild ''fresh'']\<rparr>)"
    using conjunct1 [OF conjunct2 [OF T [where jenkinsCli = ?J and err = "''404''"
          and config = "example_config [''app'', ''fresh'']" and s = initial_state
          and before = "[''app'']" and jobname = "''fresh''" and after = "[]" and s' = ?s1
          and job = "example_job\<lparr>GetLastCompletedBuild := Inl ''404''\<rparr>"]]] 3 ok
    by (simp add: cfg jobs)
  have d: "updateMetrics (example_config [''app'', ''broken'']) ?J initial_state =
             (Returned,
              ?s1\<lparr>logged := logged ?s1 @
                   [Errorf (''Unable to collect metrics for job: '' @ ''broken'' @
                            '' - unable to get Last Build'') ''timeout''],
                 trace := trace ?s1 @ [Call_GetJob ''broken'', Call_GetLastCompletedBuild ''broken'',
                                      Call_GetLastBuild ''broken'']\<rparr>)"
    using conjunct1 [OF conjunct2 [OF T [where jenkinsCli = ?J and err = "''timeout''"
          and config = "example_config [''app'', ''broken'']" and s = initial_state
          and before = "[''app'']" and jobname = "''broken''" and after = "[]" and s' = ?s1
          and job = "example_job\<lparr>GetLastBuild := Inl ''timeout''\<rparr>"
          and lastCompletedBuild = example_completed]]] 4 ok
    by (simp add: cfg jobs)
  have e: "poll (example_config [''app'', ''broken'']) [?J] initial_state =
          poll (example_config [''app'', ''broken'']) []
            (called (Sleep (UpdateInterval (Jenkins (example_config [''app'', ''broken''])) * 1000000000))
               (snd (updateMetrics (example_config [''app'', ''broken'']) ?J initial_state)))"
    using conjunct1 [OF conjunct2 [OF conjunct2 [OF T [where jenkinsCli = ?J
          and config = "example_config [''app'', ''broken'']" and s = initial_state and ticks = "[]"]]]] d
    by simp
  have f: "UpdateInterval (Jenkins (example_config jobs)) * 1000000000 = 1800000000000" for jobs
    by (simp add: example_config_def)
  have 5: "GetJob ?J ''flaky'' = Inr example_flaky"
    by (simp add: example_jenkins_def)
  have 6: "GetJob example_steady ''flaky'' = Inr (example_flaky\<lparr>IsRunning := (False, None)\<rparr>)"
    by (simp add: example_steady_def)
  have 7: "fst (IsRunning example_flaky) = False"
    by (simp add: example_flaky_def)
  have g: "process_job example_steady ''flaky'' initial_state = process_job ?J ''flaky'' initial_state"
    using conjunct2 [OF conjunct2 [OF conjunct2 [OF T [where jenkinsCli = ?J
          and jenkinsCli' = example_steady and jobname = "''flaky''" and job = example_flaky
          and err' = None and s = initial_state]]]] 5 6
    by (simp add: 7)
  show ?thesis
    unfolding a b c d e f g using 5 6 by (simp add: example_stale_def initial_state_def called_def)
qed

text \<open>
  C6. Whatever the Jenkins server answers on any number of ticks, every sample of a
  scrape has the name of one of the nine declared vectors and exactly the label names
  declared for it, in their order.
\<close>

theorem scrape_within_catalogue:
  "\<forall>(name, labels, x)\<in>scrape (snd (poll config ticks initial_state)).
     (name, map fst labels) \<in>
       {(''jenkins_running_build'', [''jobname'', ''buildid'', ''isgood'']),
        (''jenkins_running_build_pipeline_status'', [''jobname'', ''buildid'', ''id'', ''stage'']),
        (''jenkins_running_build_elapsed_time'', [''jobname'', ''buildid'', ''isgood'']),
        (''jenkins_build_success'', [''jobname'', ''buildid'']),
        (''jenkins_build_duration_seconds'', [''jobname'', ''buildid'']),
        (''jenkins_build_timestamp'', [''jobname'', ''buildid'']),
        (''jenkins_build_test_count'', [''jobname'', ''buildid'', ''result'']),
        (''jenkins_build_test_case_failure_age'',
           [''jobname'', ''buildid'', ''suite'', ''case'', ''status'', ''failedsince'']),
        (''jenkins_build_pipeline_duration_seconds'', [''jobname'', ''buildid'', ''id'', ''stage''])}"
proof (rule ballI)
  fix sample
  assume s: "sample \<in> scrape (snd (poll config ticks initial_state))"
  obtain name labels x where e: "sample = (name, labels, x)"
    by (cases sample)
  have "well_formed initial_state"
    by (simp add: well_formed_def initial_state_def)
  then have w: "well_formed (snd (poll config ticks initial_state))"
    by (rule poll_well_formed)
  from s obtain v lvs where v: "name = Opts_Name v" "labels = zip (variableLabels v) lvs"
    "metrics (snd (poll config ticks initial_state)) v lvs = Some x"
    unfolding e by (rule scrapeE)
  with w have "length lvs = length (variableLabels v)"
    unfolding well_formed_def by blast
  then have l: "map fst labels = variableLabels v"
    using v(2) by simp
  show "case sample of (name, labels, x) \<Rightarrow> (name, map fst labels) \<in>
       {(''jenkins_running_build'', [''jobname'', ''buildid'', ''isgood'']),
        (''jenkins_running_build_pipeline_status'', [''jobname'', ''buildid'', ''id'', ''stage'']),
        (''jenkins_running_build_elapsed_time'', [''jobname'', ''buildid'', ''isgood'']),
        (''jenkins_build_success'', [''jobname'', ''buildid'']),
        (''jenkins_build_duration_seconds'', [''jobname'', ''buildid'']),
        (''jenkins_build_timestamp'', [''jobname'', ''buildid'']),
        (''jenkins_build_test_count'', [''jobname'', ''buildid'', ''result'']),
        (''jenkins_build_test_case_failure_age'',
           [''jobname'', ''buildid'', ''suite'', ''case'', ''status'', ''failedsince'']),
        (''jenkins_build_pipeline_duration_seconds'', [''jobname'', ''buildid'', ''id'', ''stage''])}"
    unfolding e prod.case v(1) l by (rule family_in_catalogue)
qed

text \<open>
  C6, witness: after one tick with the example server, the failure-age sample of the
  failed test is in the scrape, under its declared name and six label names.
\<close>

theorem scrape_within_catalogue_witness:
  "(''jenkins_build_test_case_failure_age'',
      [(''jobname'', ''app''), (''buildid'', ''7''), (''suite'', ''unit''), (''case'', ''t1''),
       (''status'', ''FAILED''), (''failedsince'', ''6'')], 2)
     \<in> scrape (snd (poll (example_config [''app'']) [example_jenkins] initial_state))
   \<and> (''jenkins_build_test_case_failure_age'',
        map fst [(''jobname'', ''app''), (''buildid'', ''7''), (''suite'', ''unit''), (''case'', ''t1''),
                 (''status'', ''FAILED''), (''failedsince'', ''6'')]) \<in>
       {(''jenkins_running_build'', [''jobname'', ''buildid'', ''isgood'']),
        (''jenkins_running_build_pipeline_status'', [''jobname'', ''buildid'', ''id'', ''stage'']),
        (''jenkins_running_build_elapsed_time'', [''jobname'', ''buildid'', ''isgood'']),
        (''jenkins_build_success'', [''jobname'', ''buildid'']),
        (''jenkins_build_duration_seconds'', [''jobname'', ''buildid'']),
        (''jenkins_build_timestamp'', [''jobname'', ''buildid'']),
        (''jenkins_build_test_count'', [''jobname'', ''buildid'', ''result'']),
        (''jenkins_build_test_case_failure_age'',
           [''jobname'', ''buildid'', ''suite'', ''case'', ''status'', ''failedsince'']),
        (''jenkins_build_pipeline_duration_seconds'', [''jobname'', ''buildid'', ''id'', ''stage''])}"
proof -
  have 1: "(''jenkins_build_test_case_failure_age'',
      [(''jobname'', ''app''), (''buildid'', ''7''), (''suite'', ''unit''), (''case'', ''t1''),
       (''status'', ''FAILED''), (''failedsince'', ''6'')], 2)
     \<in> scrape (snd (poll (example_config [''app'']) [example_jenkins] initial_state))"
    using scrapeI [of "snd (poll (example_config [''app'']) [example_jenkins] initial_state)"
        jenkinsCompletedBuildTestCaseFailureAge "[''app'', ''7'', ''unit'', ''t1'', ''FAILED'', ''6'']" 2]
    by (simp add: example_defs run_defs)
  from bspec [OF scrape_within_catalogue 1] have 2: "(''jenkins_build_test_case_failure_age'',
        map fst [(''jobname'', ''app''), (''buildid'', ''7''), (''suite'', ''unit''), (''case'', ''t1''),
                 (''status'', ''FAILED''), (''failedsince'', ''6'')]) \<in>
       {(''jenkins_running_build'', [''jobname'', ''buildid'', ''isgood'']),
        (''jenkins_running_build_pipeline_status'', [''jobname'', ''buildid'', ''id'', ''stage'']),
        (''jenkins_running_build_elapsed_time'', [''jobname'', ''buildid'', ''isgood'']),
        (''jenkins_build_success'', [''jobname'', ''buildid'']),
        (''jenkins_build_duration_seconds'', [''jobname'', ''buildid'']),
        (''jenkins_build_timestamp'', [''jobname'', ''buildid'']),
        (''jenkins_build_test_count'', [''jobname'', ''buildid'', ''result'']),
        (''jenkins_build_test_case_failure_age'',
           [''jobname'', ''buildid'', ''suite'', ''case'', ''status'', ''failedsince'']),
        (''jenkins_build_pipeline_duration_seconds'', [''jobname'', ''buildid'', ''id'', ''stage''])}"
    by (simp only: prod.case)
  from 1 2 show ?thesis by (rule conjI)
qed

section \<open>What the processing of a job sets\<close>

text \<open>
  C2. When the loop body runs to its end for a job, the \<open>jenkins_build_success\<close>
  series labelled with the job's name and the number of its last completed build holds
  0 if that build's result is \<open>FAILURE\<close>, and 1 for every other result.
\<close>

theorem build_success_encoding:
  assumes "GetJob jenkinsCli jobname = Inr job"
    and "GetLastCompletedBuild job = Inr lastCompletedBuild"
    and "fst (process_job jenkinsCli jobname s) = Continue"
  shows "metrics (snd (process_job jenkinsCli jobname s)) jenkinsCompletedBuildSuccess
           [GetName job, Itoa (sint (GetBuildNumber lastCompletedBuild))] =
         Some (if GetResult lastCompletedBuild = ''FAILURE'' then 0 else 1)"
proof -
  from assms(3) obtain job' lcb lb where "GetJob jenkinsCli jobname = Inr job'"
    "GetLastCompletedBuild job' = Inr lcb" and lb: "GetLastBuild job' = Inr lb"
    by (blast dest: process_job_Continue)
  with assms have lb: "GetLastBuild job = Inr lb" by simp
  show ?thesis
    using assms(3) collect_job_success [of job jobname lastCompletedBuild lb]
    by (simp add: process_job_collect [OF assms(1,2) lb] build_id_def build_result_value_def)
qed

text \<open>
  C2, witness: the last completed build 7 of the job \<open>app\<close> has the result
  \<open>FAILURE\<close>, and the series holds 0.
\<close>

theorem build_success_encoding_witness:
  "GetJob example_jenkins ''app'' = Inr example_job
   \<and> GetLastCompletedBuild example_job = Inr example_completed
   \<and> fst (process_job example_jenkins ''app'' initial_state) = Continue
   \<and> GetResult example_completed = ''FAILURE''
   \<and> metrics (snd (process_job example_jenkins ''app'' initial_state)) jenkinsCompletedBuildSuccess
        [''app'', ''7''] = Some 0"
proof -
  have 1: "GetJob example_jenkins ''app'' = Inr example_job"
    by (simp add: example_defs)
  have 2: "GetLastCompletedBuild example_job = Inr example_completed"
    by (simp add: example_defs)
  have 3: "fst (process_job example_jenkins ''app'' initial_state) = Continue"
    by (simp add: example_defs run_defs)
  show ?thesis
    using build_success_encoding [OF 1 2 3] 1 2 3
    by (simp add: example_completed_def example_job_def Itoa_def digits.simps)
qed

text \<open>
  C3. The value computed from a stage's status is 0 for \<open>SUCCESS\<close>, 1 for
  \<open>IN_PROGRESS\<close>, 2 for \<open>UNSTABLE\<close>, 3 for \<open>FAILED\<close> and -1 for any other
  string. When the loop body runs to its end for a running job, the
  \<open>jenkins_running_build_pipeline_status\<close> series of each stage of the running
  pipeline holds that value for a stage with these label values (the last of them in
  the pipeline, which has written last), and for the stage itself when no two stages
  share the padded id and the name.
\<close>

theorem pipeline_status_encoding:
  assumes "GetJob jenkinsCli jobname = Inr job"
    and "GetLastBuild job = Inr lastBuild"
    and "fst (IsRunning job)"
    and "GetPipelineRun job (Itoa (sint (GetBuildNumber lastBuild))) = Some livePipe"
    and "fst (process_job jenkinsCli jobname s) = Continue"
  shows "stage_status_value ''SUCCESS'' = 0 \<and> stage_status_value ''IN_PROGRESS'' = 1
         \<and> stage_status_value ''UNSTABLE'' = 2 \<and> stage_status_value ''FAILED'' = 3
         \<and> (\<forall>status. status \<notin> {''SUCCESS'', ''IN_PROGRESS'', ''UNSTABLE'', ''FAILED''}
               \<longrightarrow> stage_status_value status = - 1)
         \<and> (\<forall>stage\<in>set (Stages livePipe). \<exists>stage'\<in>set (Stages livePipe).
               Sprintf_03s (stage_ID stage') = Sprintf_03s (stage_ID stage)
               \<and> stage_Name stage' = stage_Name stage
               \<and> metrics (snd (process_job jenkinsCli jobname s)) jenkinsRunningBuildPipelineStatus
                    [GetName job, Itoa (sint (GetBuildNumber lastBuild)),
                     Sprintf_03s (stage_ID stage), stage_Name stage] =
                  Some (stage_status_value (stage_Status stage')))
         \<and> (distinct (map (\<lambda>stage. (Sprintf_03s (stage_ID stage), stage_Name stage)) (Stages livePipe))
               \<longrightarrow> (\<forall>stage\<in>set (Stages livePipe).
                 metrics (snd (process_job jenkinsCli jobname s)) jenkinsRunningBuildPipelineStatus
                    [GetName job, Itoa (sint (GetBuildNumber lastBuild)),
                     Sprintf_03s (stage_ID stage), stage_Name stage] =
                  Some (stage_status_value (stage_Status stage))))"
proof -
  let ?lbl = "\<lambda>st. [GetName job, build_id lastBuild, Sprintf_03s (stage_ID st), stage_Name st]"
  let ?val = "\<lambda>st. stage_status_value (stage_Status st)"
  from assms(5) obtain job' lcb lb where "GetJob jenkinsCli jobname = Inr job'"
    "GetLastCompletedBuild job' = Inr lcb" "GetLastBuild job' = Inr lb"
    by (blast dest: process_job_Continue)
  with assms have lcb: "GetLastCompletedBuild job = Inr lcb" by simp
  note pj = process_job_collect [OF assms(1) lcb assms(2)]
  have lp: "GetPipelineRun job (build_id lastBuild) = Some livePipe"
    using assms(4) by (simp add: build_id_def)
  have m: "metrics (snd (process_job jenkinsCli jobname s)) jenkinsRunningBuildPipelineStatus k =
            last_value ?lbl ?val (Stages livePipe) k (metrics s jenkinsRunningBuildPipelineStatus k)" for k
    using assms(5) collect_job_running [OF _ assms(3) lp, of jobname lcb _ jenkinsRunningBuildPipelineStatus k]
    by (simp add: pj)
  have a: "\<exists>stage'\<in>set (Stages livePipe).
               Sprintf_03s (stage_ID stage') = Sprintf_03s (stage_ID stage)
               \<and> stage_Name stage' = stage_Name stage
               \<and> metrics (snd (process_job jenkinsCli jobname s)) jenkinsRunningBuildPipelineStatus
                    (?lbl stage) = Some (?val stage')"
    if "stage \<in> set (Stages livePipe)" for stage
  proof -
    from that have "\<exists>x\<in>set (Stages livePipe). ?lbl x = ?lbl stage" by blast
    from last_value_some [OF this, of ?val "metrics s jenkinsRunningBuildPipelineStatus (?lbl stage)"]
    show ?thesis by (auto simp: m)
  qed
  have b: "metrics (snd (process_job jenkinsCli jobname s)) jenkinsRunningBuildPipelineStatus
                    (?lbl stage) = Some (?val stage)"
    if "stage \<in> set (Stages livePipe)"
      and d: "distinct (map (\<lambda>stage. (Sprintf_03s (stage_ID stage), stage_Name stage)) (Stages livePipe))"
    for stage
  proof -
    have "distinct (map (\<lambda>(i, n). [GetName job, build_id lastBuild, i, n])
        (map (\<lambda>stage. (Sprintf_03s (stage_ID stage), stage_Name stage)) (Stages livePipe)))"
      by (subst distinct_map) (auto simp: inj_on_def d)
    then have "distinct (map ?lbl (Stages livePipe))" by (simp add: comp_def)
    from last_value_distinct [OF this that(1)] show ?thesis by (simp add: m)
  qed
  show ?thesis
    using a b by (simp add: stage_status_value_def build_id_def)
qed

text \<open>
  C3, witness: the running build 8 of the job \<open>app\<close> has a stage \<open>Build\<close> with the
  status \<open>SUCCESS\<close> and a stage \<open>Test\<close> with the status \<open>IN_PROGRESS\<close>; their
  series hold 0 and 1.
\<close>

theorem pipeline_status_encoding_witness:
  "GetJob example_jenkins ''app'' = Inr example_job
   \<and> GetLastBuild example_job = Inr example_last
   \<and> fst (IsRunning example_job)
   \<and> GetPipelineRun example_job ''8'' = Some \<lparr>Stages = example_stages\<rparr>
   \<and> fst (process_job example_jenkins ''app'' initial_state) = Continue
   \<and> metrics (snd (process_job example_jenkins ''app'' initial_state)) jenkinsRunningBuildPipelineStatus
        [''app'', ''8'', ''006'', ''Build''] = Some 0
   \<and> metrics (snd (process_job example_jenkins ''app'' initial_state)) jenkinsRunningBuildPipelineStatus
        [''app'', ''8'', ''011'', ''Test''] = Some 1"
proof -
  have 1: "GetJob example_jenkins ''app'' = Inr example_job"
    by (simp add: example_defs)
  have 2: "GetLastBuild example_job = Inr example_last"
    by (simp add: example_defs)
  have 3: "fst (IsRunning example_job)"
    by (simp add: example_defs)
  have 4: "GetPipelineRun example_job (Itoa (sint (GetBuildNumber example_last))) = Some \<lparr>Stages = example_stages\<rparr>"
    by (simp add: example_defs)
  have 5: "fst (process_job example_jenkins ''app'' initial_state) = Continue"
    by (simp add: example_defs run_defs)
  have 6: "Itoa (sint (GetBuildNumber example_last)) = ''8''"
    by (simp add: example_defs Itoa_def digits.simps)
  show ?thesis
    using pipeline_status_encoding [OF 1 2 3 4 5] 1 2 3 4 5 unfolding 6
    by (simp add: example_stages_def example_job_def Sprintf_03s_def numeral_2_eq_2 stage_status_value_def)
qed

text \<open>
  C9. When the loop body runs to its end for a job, the
  \<open>jenkins_build_test_case_failure_age\<close> series whose label values are the job's
  name, the number of the last completed build, the suite's name, the case's name, its
  status and its failed-since number is set for every test case of the report that is
  not skipped and whose status is not \<open>PASSED\<close>, and holds the age of such a case
  with these label values: of the case itself when no two such cases of the report share
  the four values. No other series of the vector is touched: a skipped or passed case
  does not set any.
\<close>

theorem failure_age_series:
  assumes "GetJob jenkinsCli jobname = Inr job"
    and "GetLastCompletedBuild job = Inr lastCompletedBuild"
    and "GetResultSet lastCompletedBuild = Some resultset"
    and "fst (process_job jenkinsCli jobname s) = Continue"
  shows "(\<forall>suite\<in>set (Suites resultset). \<forall>testcase\<in>set (Cases suite).
            \<not> tc_Skipped testcase \<and> tc_Status testcase \<noteq> ''PASSED'' \<longrightarrow>
            (\<exists>suite'\<in>set (Suites resultset). \<exists>testcase'\<in>set (Cases suite').
               \<not> tc_Skipped testcase' \<and> tc_Status testcase' \<noteq> ''PASSED''
               \<and> suite_Name suite' = suite_Name suite \<and> tc_Name testcase' = tc_Name testcase
               \<and> tc_Status testcase' = tc_Status testcase
               \<and> Itoa (sint (tc_FailedSince testcase')) = Itoa (sint (tc_FailedSince testcase))
               \<and> metrics (snd (process_job jenkinsCli jobname s)) jenkinsCompletedBuildTestCaseFailureAge
                    [GetName job, Itoa (sint (GetBuildNumber lastCompletedBuild)), suite_Name suite,
                     tc_Name testcase, tc_Status testcase, Itoa (sint (tc_FailedSince testcase))] =
                  Some (float64 (tc_Age testcase'))))
         \<and> (distinct (map (\<lambda>(suite, testcase). (suite_Name suite, tc_Name testcase, tc_Status testcase,
                             Itoa (sint (tc_FailedSince testcase)))) (failing resultset)) \<longrightarrow>
             (\<forall>suite\<in>set (Suites resultset). \<forall>testcase\<in>set (Cases suite).
                \<not> tc_Skipped testcase \<and> tc_Status testcase \<noteq> ''PASSED'' \<longrightarrow>
                metrics (snd (process_job jenkinsCli jobname s)) jenkinsCompletedBuildTestCaseFailureAge
                    [GetName job, Itoa (sint (GetBuildNumber lastCompletedBuild)), suite_Name suite,
                     tc_Name testcase, tc_Status testcase, Itoa (sint (tc_FailedSince testcase))] =
                  Some (float64 (tc_Age testcase))))
         \<and> (\<forall>lvs. (\<forall>suite\<in>set (Suites resultset). \<forall>testcase\<in>set (Cases suite).
                      \<not> tc_Skipped testcase \<and> tc_Status testcase \<noteq> ''PASSED'' \<longrightarrow>
                      lvs \<noteq> [GetName job, Itoa (sint (GetBuildNumber lastCompletedBuild)), suite_Name suite,
                              tc_Name testcase, tc_Status testcase, Itoa (sint (tc_FailedSince testcase))])
               \<longrightarrow> metrics (snd (process_job jenkinsCli jobname s)) jenkinsCompletedBuildTestCaseFailureAge lvs =
                   metrics s jenkinsCompletedBuildTestCaseFailureAge lvs)"
proof -
  let ?ca = "[GetName job, build_id lastCompletedBuild]"
  let ?val = "\<lambda>p. float64 (tc_Age (snd p))"
  let ?FA = jenkinsCompletedBuildTestCaseFailureAge
  from assms(4) obtain job' lcb lb where "GetJob jenkinsCli jobname = Inr job'"
    "GetLastCompletedBuild job' = Inr lcb" "GetLastBuild job' = Inr lb"
    by (blast dest: process_job_Continue)
  with assms have lb: "GetLastBuild job = Inr lb" by simp
  note pj = process_job_collect [OF assms(1,2) lb]
  have m: "metrics (snd (process_job jenkinsCli jobname s)) ?FA k =
            last_value (fa_labels ?ca) ?val (failing resultset) k (metrics s ?FA k)" for k
    using assms(4) collect_job_failure_age [OF _ assms(3), of job jobname lb _ k]
    by (simp add: pj)
  have a: "\<exists>suite'\<in>set (Suites resultset). \<exists>testcase'\<in>set (Cases suite').
               \<not> tc_Skipped testcase' \<and> tc_Status testcase' \<noteq> ''PASSED''
               \<and> suite_Name suite' = suite_Name suite \<and> tc_Name testcase' = tc_Name testcase
               \<and> tc_Status testcase' = tc_Status testcase
               \<and> Itoa (sint (tc_FailedSince testcase')) = Itoa (sint (tc_FailedSince testcase))
               \<and> metrics (snd (process_job jenkinsCli jobname s)) ?FA (fa_labels ?ca (suite, testcase)) =
                  Some (float64 (tc_Age testcase'))"
    if "suite \<in> set (Suites resultset)" "testcase \<in> set (Cases suite)"
      "\<not> tc_Skipped testcase" "tc_Status testcase \<noteq> ''PASSED''" for suite testcase
  proof -
    from that have "(suite, testcase) \<in> set (failing resultset)" by (simp add: in_failing)
    then have "\<exists>x\<in>set (failing resultset). fa_labels ?ca x = fa_labels ?ca (suite, testcase)" by blast
    from last_value_some [OF this, of ?val "metrics s ?FA (fa_labels ?ca (suite, testcase))"]
    obtain p where p: "p \<in> set (failing resultset)" "fa_labels ?ca p = fa_labels ?ca (suite, testcase)"
      "metrics (snd (process_job jenkinsCli jobname s)) ?FA (fa_labels ?ca (suite, testcase)) = Some (?val p)"
      by (auto simp: m)
    obtain su' c' where sc: "p = (su', c')" by (cases p)
    with p show ?thesis
      by (auto simp: in_failing fa_labels_def intro!: bexI [of _ su'] bexI [of _ c'])
  qed
  have b: "metrics (snd (process_job jenkinsCli jobname s)) ?FA (fa_labels ?ca (suite, testcase)) =
             Some (float64 (tc_Age testcase))"
    if "suite \<in> set (Suites resultset)" "testcase \<in> set (Cases suite)"
      "\<not> tc_Skipped testcase" "tc_Status testcase \<noteq> ''PASSED''"
      and d: "distinct (map (\<lambda>(suite, testcase). (suite_Name suite, tc_Name testcase, tc_Status testcase,
                             Itoa (sint (tc_FailedSince testcase)))) (failing resultset))"
    for suite testcase
  proof -
    from that have i: "(suite, testcase) \<in> set (failing resultset)" by (simp add: in_failing)
    have "distinct (map (\<lambda>(a, b, c, d). ?ca @ [a, b, c, d])
        (map (\<lambda>(suite, testcase). (suite_Name suite, tc_Name testcase, tc_Status testcase,
                             Itoa (sint (tc_FailedSince testcase)))) (failing resultset)))"
      by (subst distinct_map) (auto simp: inj_on_def d)
    then have "distinct (map (fa_labels ?ca) (failing resultset))"
      by (simp add: comp_def fa_labels_def [abs_def] case_prod_beta)
    from last_value_distinct [OF this i] show ?thesis by (simp add: m)
  qed
  have c: "metrics (snd (process_job jenkinsCli jobname s)) ?FA lvs = metrics s ?FA lvs"
    if h: "\<forall>suite\<in>set (Suites resultset). \<forall>testcase\<in>set (Cases suite).
                      \<not> tc_Skipped testcase \<and> tc_Status testcase \<noteq> ''PASSED'' \<longrightarrow>
                      lvs \<noteq> fa_labels ?ca (suite, testcase)" for lvs
  proof -
    have "fa_labels ?ca p \<noteq> lvs" if p: "p \<in> set (failing resultset)" for p
    proof (cases p)
      case (Pair su c)
      with p have "su \<in> set (Suites resultset)" "c \<in> set (Cases su)"
        "\<not> tc_Skipped c" "tc_Status c \<noteq> ''PASSED''"
        by (simp_all add: in_failing)
      with h have "lvs \<noteq> fa_labels ?ca (su, c)" by blast
      with Pair show ?thesis by auto
    qed
    then show ?thesis by (simp add: m last_value_none)
  qed
  show ?thesis
    using a b c by (simp add: fa_labels_def build_id_def)
qed

text \<open>
  C9, witness: of the three cases of the example report, the failed one, of age 2, has
  a series with the value 2; the passed one and the skipped one have none.
\<close>

theorem failure_age_series_witness:
  "GetJob example_jenkins ''app'' = Inr example_job
   \<and> GetLastCompletedBuild example_job = Inr example_completed
   \<and> GetResultSet example_completed = Some example_resultset
   \<and> fst (process_job example_jenkins ''app'' initial_state) = Continue
   \<and> metrics (snd (process_job example_jenkins ''app'' initial_state)) jenkinsCompletedBuildTestCaseFailureAge
        [''app'', ''7'', ''unit'', ''t1'', ''FAILED'', ''6''] = Some 2
   \<and> metrics (snd (process_job example_jenkins ''app'' initial_state)) jenkinsCompletedBuildTestCaseFailureAge
        [''app'', ''7'', ''unit'', ''t2'', ''PASSED'', ''0''] = None
   \<and> metrics (snd (process_job example_jenkins ''app'' initial_state)) jenkinsCompletedBuildTestCaseFailureAge
        [''app'', ''7'', ''unit'', ''t3'', ''SKIPPED'', ''0''] = None"
proof -
  have 1: "GetJob example_jenkins ''app'' = Inr example_job"
    by (simp add: example_defs)
  have 2: "GetLastCompletedBuild example_job = Inr example_completed"
    by (simp add: example_defs)
  have 3: "GetResultSet example_completed = Some example_resultset"
    by (simp add: example_defs)
  have 4: "fst (process_job example_jenkins ''app'' initial_state) = Continue"
    by (simp add: example_defs run_defs)
  have 5: "Itoa (sint (GetBuildNumber example_completed)) = ''7''"
    by (simp add: example_defs Itoa_def digits.simps)
  have 6: "distinct (map (\<lambda>(suite, testcase). (suite_Name suite, tc_Name testcase, tc_Status testcase,
                             Itoa (sint (tc_FailedSince testcase)))) (failing example_resultset))"
    by (simp add: failing_def example_resultset_def)
  have 7: "metrics initial_state jenkinsCompletedBuildTestCaseFailureAge lvs = None" for lvs
    by (simp add: initial_state_def)
  show ?thesis
    using failure_age_series [OF 1 2 3 4] 1 2 3 4 6 unfolding 5 7
    by (simp add: example_resultset_def example_job_def Itoa_def digits.simps float64_def round_to_float64_def)
qed

text \<open>
  C10. When the loop body runs to its end for a job, the \<open>jenkins_running_build\<close>
  series of the job's last build holds 1 if the job is running and 0 if not. If the job
  is running, the \<open>jenkins_running_build_elapsed_time\<close> series with the same label
  values holds the conversion to \<open>float64\<close> of the \<open>int64\<close> sum, over the stages of
  the running pipeline, of the stage's duration divided by 1000 with truncation; this
  is the sum of the integers whenever that sum is at most \<open>2 ^ 53\<close> in magnitude, where
  neither the \<open>int64\<close> addition wraps nor the conversion rounds. No other series of
  the vector is touched, and none at all if the job is not running.
\<close>

theorem running_build_elapsed_time:
  assumes "GetJob jenkinsCli jobname = Inr job"
    and "GetLastBuild job = Inr lastBuild"
    and "fst (process_job jenkinsCli jobname s) = Continue"
  shows "metrics (snd (process_job jenkinsCli jobname s)) jenkinsRunningBuild
           [GetName job, Itoa (sint (GetBuildNumber lastBuild)), if IsGood lastBuild then ''1'' else ''0''] =
         Some (if fst (IsRunning job) then 1 else 0)
       \<and> (fst (IsRunning job) \<longrightarrow>
            (\<exists>livePipe. GetPipelineRun job (Itoa (sint (GetBuildNumber lastBuild))) = Some livePipe
               \<and> metrics (snd (process_job jenkinsCli jobname s)) jenkinsRunningBuildElapsedTime
                    [GetName job, Itoa (sint (GetBuildNumber lastBuild)), if IsGood lastBuild then ''1'' else ''0''] =
                  Some (float64 (\<Sum>stage\<leftarrow>Stages livePipe. int64_div (stage_Duration stage) 1000))
               \<and> (\<bar>\<Sum>stage\<leftarrow>Stages livePipe. sint (stage_Duration stage) sdiv 1000\<bar> \<le> 2 ^ 53
                  \<longrightarrow> metrics (snd (process_job jenkinsCli jobname s)) jenkinsRunningBuildElapsedTime
                        [GetName job, Itoa (sint (GetBuildNumber lastBuild)),
                         if IsGood lastBuild then ''1'' else ''0''] =
                      Some (real_of_int (\<Sum>stage\<leftarrow>Stages livePipe. sint (stage_Duration stage) sdiv 1000)))))
       \<and> (\<forall>lvs. \<not> (fst (IsRunning job) \<and> lvs = [GetName job, Itoa (sint (GetBuildNumber lastBuild)),
                                               if IsGood lastBuild then ''1'' else ''0''])
            \<longrightarrow> metrics (snd (process_job jenkinsCli jobname s)) jenkinsRunningBuildElapsedTime lvs =
                metrics s jenkinsRunningBuildElapsedTime lvs)"
proof -
  from assms(3) obtain job' lcb lb where "GetJob jenkinsCli jobname = Inr job'"
    "GetLastCompletedBuild job' = Inr lcb" "GetLastBuild job' = Inr lb"
    by (blast dest: process_job_Continue)
  with assms have lcb: "GetLastCompletedBuild job = Inr lcb" by simp
  note pj = process_job_collect [OF assms(1) lcb assms(2)]
  let ?s0 = "called (Call_GetLastBuild jobname)
              (called (Call_GetLastCompletedBuild jobname) (called (Call_GetJob jobname) s))"
  have cont: "fst (collect_job job jobname lcb lastBuild ?s0) = Continue"
    using assms(3) by (simp add: pj)
  let ?S = "snd (collect_job job jobname lcb lastBuild ?s0)"
  let ?k = "[GetName job, build_id lastBuild, isGood_label (IsGood lastBuild)]"
  show ?thesis
  proof (cases "fst (IsRunning job)")
    case False
    have rb: "metrics ?S jenkinsRunningBuild ?k = Some 0"
      using collect_job_idle [OF cont False, of jenkinsRunningBuild ?k] by simp
    have et: "metrics ?S jenkinsRunningBuildElapsedTime k = metrics s jenkinsRunningBuildElapsedTime k" for k
      using collect_job_idle [OF cont False, of jenkinsRunningBuildElapsedTime k] by simp
    show ?thesis
      using False rb et by (simp add: pj build_id_def isGood_label_def)
  next
    case True
    with cont obtain livePipe where lp: "GetPipelineRun job (build_id lastBuild) = Some livePipe"
      by (auto simp: collect_job_flow)
    have rb: "metrics ?S jenkinsRunningBuild ?k = Some 1"
      using collect_job_running [OF cont True lp, of jenkinsRunningBuild ?k] by simp
    have et: "metrics ?S jenkinsRunningBuildElapsedTime k =
        (if k = ?k
         then Some (float64 (\<Sum>stage\<leftarrow>Stages livePipe. int64_div (stage_Duration stage) 1000))
         else metrics s jenkinsRunningBuildElapsedTime k)" for k
      using collect_job_running [OF cont True lp, of jenkinsRunningBuildElapsedTime k] by simp
    show ?thesis
      using True lp rb et by (simp add: pj build_id_def isGood_label_def elapsed_exact)
  qed
qed

text \<open>
  C10, witness: the job \<open>app\<close> is running, with stages of 2500 and 1999
  milliseconds: the elapsed time is 2 + 1 = 3, and \<open>jenkins_running_build\<close> is 1.
\<close>

theorem running_build_elapsed_time_witness:
  "GetJob example_jenkins ''app'' = Inr example_job
   \<and> GetLastBuild example_job = Inr example_last
   \<and> fst (process_job example_jenkins ''app'' initial_state) = Continue
   \<and> fst (IsRunning example_job)
   \<and> metrics (snd (process_job example_jenkins ''app'' initial_state)) jenkinsRunningBuild
        [''app'', ''8'', ''0''] = Some 1
   \<and> metrics (snd (process_job example_jenkins ''app'' initial_state)) jenkinsRunningBuildElapsedTime
        [''app'', ''8'', ''0''] = Some 3
   \<and> metrics (snd (process_job example_jenkins ''app'' initial_state)) jenkinsRunningBuildElapsedTime
        [''app'', ''8'', ''1''] = None"
proof -
  have 1: "GetJob example_jenkins ''app'' = Inr example_job"
    by (simp add: example_defs)
  have 2: "GetLastBuild example_job = Inr example_last"
    by (simp add: example_defs)
  have 3: "fst (process_job example_jenkins ''app'' initial_state) = Continue"
    by (simp add: example_defs run_defs)
  have 4: "Itoa (sint (GetBuildNumber example_last)) = ''8''"
    by (simp add: example_defs Itoa_def digits.simps)
  have 5: "metrics initial_state jenkinsRunningBuildElapsedTime lvs = None" for lvs
    by (simp add: initial_state_def)
  show ?thesis
    using running_build_elapsed_time [OF 1 2 3] 1 2 3 unfolding 4 5
    by (simp add: example_stages_def example_job_def example_last_def signed_divide_int_def float64_def
        round_to_float64_def int64_div_def)
qed

end
